theory Spec2Isabelle
  imports Complex_Main "HOL-Library.Sublist"
begin

section \<open>File validation (lib/validators.ts)\<close>

text \<open>
  A browser \<open>File\<close> as far as the validators read it: its name, its MIME type and its
  size in bytes. The fields carry the prefix \<open>file_\<close> because \<open>size\<close> and \<open>type\<close> are
  taken in HOL.
\<close>

record file_obj =
  file_name :: string
  file_type :: string
  file_size :: nat

text \<open>The result object \<open>{ valid: boolean; error?: string }\<close>; an absent \<open>error\<close> is \<open>None\<close>.\<close>

record validation =
  valid :: bool
  validation_error :: "string option"

definition AllowedFileTypes_images :: "string list" where
  "AllowedFileTypes_images = [''image/jpeg'', ''image/png'', ''image/gif'', ''image/webp'']"

definition AllowedFileTypes_documents :: "string list" where
  "AllowedFileTypes_documents = [''application/pdf'', ''text/plain'', ''application/msword'']"

definition AllowedFileTypes_audio :: "string list" where
  "AllowedFileTypes_audio = [''audio/mp3'', ''audio/wav'', ''audio/webm'', ''audio/ogg'']"

definition MAX_FILE_SIZE :: nat where
  "MAX_FILE_SIZE = 10 * 1024 * 1024"

definition allAllowedTypes :: "string list" where
  "allAllowedTypes =
     AllowedFileTypes_images @ AllowedFileTypes_documents @ AllowedFileTypes_audio"

text \<open>\<open>validateFile\<close>: the type test comes first, the size test second.\<close>

definition validateFile :: "file_obj \<Rightarrow> validation" where
  "validateFile f =
     (if \<not> List.member allAllowedTypes (file_type f)
      then \<lparr>valid = False, validation_error = Some ''File type not supported''\<rparr>
      else if file_size f > MAX_FILE_SIZE
      then \<lparr>valid = False, validation_error = Some ''File size exceeds 10MB limit''\<rparr>
      else \<lparr>valid = True, validation_error = None\<rparr>)"

section \<open>The upload handler hook (hooks/useUploadHandler.ts)\<close>

text \<open>The three \<open>useState\<close> cells of the hook.\<close>

record upload_state =
  isDragging :: bool
  uploadError :: "string option"
  dragCounter :: int

text \<open>
  \<open>validation.error || 'Invalid file'\<close>: an absent or empty error string is falsy and
  gives the fallback.
\<close>

definition error_or_invalid :: "string option \<Rightarrow> string" where
  "error_or_invalid e = (case e of None \<Rightarrow> ''Invalid file'' | Some s \<Rightarrow> if s = [] then ''Invalid file'' else s)"

text \<open>
  The part of \<open>handleDrop\<close> and \<open>handleFileSelect\<close> that both share: the first file of
  the list is validated and, only when valid, handed to the callback \<open>onFileSelect\<close>.
  The callback acts on the state of the application, here any type \<open>'a\<close>; in the chat
  input it is the store's upload action, which extends the pending attachments.
  \<open>files\<close> is \<open>None\<close> for \<open>null\<close> or \<open>undefined\<close>.
\<close>

definition select_first :: "file_obj list option \<Rightarrow> (file_obj \<Rightarrow> 'a \<Rightarrow> 'a) \<Rightarrow> upload_state \<times> 'a \<Rightarrow> upload_state \<times> 'a" where
  "select_first files onFileSelect hs =
     (case files of
        None \<Rightarrow> hs
      | Some [] \<Rightarrow> hs
      | Some (f # _) \<Rightarrow>
          (let validation = validateFile f in
           if valid validation
           then (fst hs\<lparr>uploadError := None\<rparr>, onFileSelect f (snd hs))
           else (fst hs\<lparr>uploadError := Some (error_or_invalid (validation_error validation))\<rparr>, snd hs)))"

definition handleFileSelect :: "file_obj list option \<Rightarrow> (file_obj \<Rightarrow> 'a \<Rightarrow> 'a) \<Rightarrow> upload_state \<times> 'a \<Rightarrow> upload_state \<times> 'a" where
  "handleFileSelect files onFileSelect hs = select_first files onFileSelect hs"

text \<open>\<open>handleDrop\<close> first resets the drag flag and the drag counter.\<close>

definition handleDrop :: "file_obj list option \<Rightarrow> (file_obj \<Rightarrow> 'a \<Rightarrow> 'a) \<Rightarrow> upload_state \<times> 'a \<Rightarrow> upload_state \<times> 'a" where
  "handleDrop files onFileSelect hs =
     select_first files onFileSelect (fst hs\<lparr>isDragging := False, dragCounter := 0\<rparr>, snd hs)"

section \<open>Mock authentication (lib/auth.ts)\<close>

text \<open>
  \<open>User\<close> and the stored record \<open>User & { password: string }\<close>. The identifier field
  is \<open>user_id\<close> because \<open>id\<close> is the identity function of HOL. A value of type
  \<open>user\<close> has no password field at all.
\<close>

record user =
  user_id :: string
  name :: string
  email :: string
  mobile :: string
  createdAt :: string

record stored_user = user +
  password :: string

record register_form_data =
  reg_name :: string
  reg_email :: string
  reg_mobile :: string
  reg_password :: string
  reg_confirmPassword :: string


text \<open>The result \<open>{ success: boolean; user?: User; error?: string }\<close>.\<close>

record auth_result =
  success :: bool
  auth_user :: "user option"
  auth_error :: "string option"

text \<open>
  Local storage holds two items, each absent (\<open>None\<close>, \<open>getItem\<close> gives \<open>null\<close>) or the
  JSON text of a value, modelled by the value itself: the user list under
  \<open>ai_chat_users\<close> and the current user under \<open>ai_chat_current_user\<close>. On the server
  there is no \<open>window\<close> and no storage: the environment is \<open>None\<close>.
\<close>

record local_storage =
  ai_chat_users :: "stored_user list option"
  ai_chat_current_user :: "user option"

type_synonym window = "local_storage option"

definition getStoredUsers :: "window \<Rightarrow> stored_user list" where
  "getStoredUsers w =
     (case w of
        None \<Rightarrow> []
      | Some ls \<Rightarrow> (case ai_chat_users ls of None \<Rightarrow> [] | Some users \<Rightarrow> users))"

definition saveUsers :: "stored_user list \<Rightarrow> window \<Rightarrow> window" where
  "saveUsers users w =
     (case w of None \<Rightarrow> None | Some ls \<Rightarrow> Some (ls\<lparr>ai_chat_users := Some users\<rparr>))"

text \<open>The destructuring \<open>const { password: _, ...userWithoutPassword } = u\<close>.\<close>

definition withoutPassword :: "stored_user \<Rightarrow> user" where
  "withoutPassword u =
     \<lparr>user_id = user_id u, name = name u, email = email u, mobile = mobile u,
      createdAt = createdAt u\<rparr>"

text \<open>
  \<open>registerUser\<close>. The generated identifier and the creation time come from the clock
  and the random generator; they are the parameters \<open>newId\<close> and \<open>now\<close>. The artificial
  delay has no effect on the result.
\<close>

definition registerUser :: "register_form_data \<Rightarrow> string \<Rightarrow> string \<Rightarrow> window \<Rightarrow> auth_result \<times> window" where
  "registerUser data newId now w =
     (let users = getStoredUsers w in
      if list_ex (\<lambda>u. email u = reg_email data) users
      then (\<lparr>success = False, auth_user = None, auth_error = Some ''Email already registered''\<rparr>, w)
      else
        (let newUser = \<lparr>user_id = newId, name = reg_name data, email = reg_email data,
                         mobile = reg_mobile data, createdAt = now,
                         password = reg_password data\<rparr>
         in (\<lparr>success = True, auth_user = Some (withoutPassword newUser), auth_error = None\<rparr>,
             saveUsers (users @ [newUser]) w)))"


definition getCurrentUser :: "window \<Rightarrow> user option" where
  "getCurrentUser w = (case w of None \<Rightarrow> None | Some ls \<Rightarrow> ai_chat_current_user ls)"

definition logoutUser :: "window \<Rightarrow> window" where
  "logoutUser w = (case w of None \<Rightarrow> None | Some ls \<Rightarrow> Some (ls\<lparr>ai_chat_current_user := None\<rparr>))"

definition isLoggedIn :: "window \<Rightarrow> bool" where
  "isLoggedIn w \<longleftrightarrow> getCurrentUser w \<noteq> None"

section \<open>Types of the chat (types/index.ts)\<close>

datatype role = UserRole | AssistantRole

datatype message_content_type = TextContent | ImageContent | FileContent | VoiceContent | CodeContent

record attachment =
  att_id :: string
  att_name :: string
  att_type :: string
  att_size :: nat
  att_url :: string
  att_preview :: "string option"

record message =
  msg_id :: string
  role :: role
  content :: string
  contentType :: message_content_type
  attachments :: "attachment list option"
  timestamp :: string
  isLoading :: "bool option"

record ai_agent_payload =
  p_message :: string
  p_attachments :: "attachment list option"
  p_conversationId :: "string option"
  p_messageHistory :: "message list option"

record ai_agent_response =
  r_type :: message_content_type
  r_content :: string
  r_attachments :: "attachment list option"
  r_error :: "string option"

text \<open>How an awaited promise settles: with a value, or by throwing.\<close>

datatype 'a outcome = Resolved 'a | Rejected

text \<open>
  Truthiness of an optional string, as \<open>||\<close> and \<open>if\<close> read it: \<open>null\<close>, \<open>undefined\<close>
  and the empty string are falsy.
\<close>

definition truthy :: "string option \<Rightarrow> bool" where
  "truthy x = (case x of None \<Rightarrow> False | Some s \<Rightarrow> s \<noteq> [])"

section \<open>Characters and patterns\<close>

text \<open>
  Strings are lists of 8-bit characters, and the model is exact for text in ASCII.
  \<open>toLowerCase\<close> maps the letters \<open>A\<close> to \<open>Z\<close> and leaves every other character as
  it is; the patterns below contain ASCII letters only.
\<close>

definition upper_letters :: string where
  "upper_letters = ''ABCDEFGHIJKLMNOPQRSTUVWXYZ''"

definition lower_letters :: string where
  "lower_letters = ''abcdefghijklmnopqrstuvwxyz''"

definition toLowerCase_char :: "char \<Rightarrow> char" where
  "toLowerCase_char c = (case map_of (zip upper_letters lower_letters) c of None \<Rightarrow> c | Some l \<Rightarrow> l)"

definition toLowerCase :: "string \<Rightarrow> string" where
  "toLowerCase s = map toLowerCase_char s"

text \<open>
  The white space that \<open>String.prototype.trim\<close> strips and that \<open>\s\<close> matches, among
  8-bit characters: tab, line feed, vertical tab, form feed, carriage return, space and
  the no-break space.
\<close>

definition is_space :: "char \<Rightarrow> bool" where
  "is_space c \<longleftrightarrow> List.member [CHR 0x09, CHR 0x0A, CHR 0x0B, CHR 0x0C, CHR 0x0D, CHR 0x20, CHR 0xA0] c"

definition trim :: "string \<Rightarrow> string" where
  "trim s = rev (dropWhile is_space (rev (dropWhile is_space s)))"

text \<open>
  Matching under the flag \<open>i\<close>: two characters match when their canonical (upper case)
  forms agree. \<open>starts_ci p s\<close>: the literal \<open>p\<close> matches at the start of \<open>s\<close>;
  \<open>includes_ci p s\<close>: it matches somewhere in \<open>s\<close>.
\<close>

definition canonicalize :: "char \<Rightarrow> char" where
  "canonicalize c = (case map_of (zip lower_letters upper_letters) c of None \<Rightarrow> c | Some u \<Rightarrow> u)"

fun starts_ci :: "string \<Rightarrow> string \<Rightarrow> bool" where
  "starts_ci [] s = True"
| "starts_ci (p # ps) [] = False"
| "starts_ci (p # ps) (c # cs) = (canonicalize p = canonicalize c \<and> starts_ci ps cs)"

fun includes_ci :: "string \<Rightarrow> string \<Rightarrow> bool" where
  "includes_ci p [] = starts_ci p []"
| "includes_ci p (c # cs) = (starts_ci p (c # cs) \<or> includes_ci p cs)"

section \<open>The agent wrapper and its canned responses (lib/aiAgentWrapper.ts)\<close>

definition mockResponses_greeting :: "string list" where
  "mockResponses_greeting =
     [''Hello! I'm your AI assistant. How can I help you today?'',
      ''Hi there! I'm ready to assist you with any questions or tasks.'',
      ''Greetings! What would you like to explore today?'']"

definition mockResponses_image :: "string list" where
  "mockResponses_image =
     [''I can see you've shared an image. Let me analyze it for you...\<newline>\<newline>This appears to be an interesting visual. I can help you with image descriptions, analysis, or any questions about what you've shared.'',
      ''Thanks for sharing this image! I've analyzed it and I'm ready to discuss what I see or answer any questions you might have about it.'']"

definition mockResponses_file :: "string list" where
  "mockResponses_file =
     [''I've received your file. Let me process it...\<newline>\<newline>I can help you analyze the contents, summarize key points, or answer questions about the document.'',
      ''File received! I'm ready to help you work with this document. What would you like to know about it?'']"

definition mockResponses_code :: "string list" where
  "mockResponses_code =
     [''```javascript\<newline>// Here's a sample code response\<newline>function greet(name) {\<newline>  return `Hello, ${name}!`;\<newline>}\<newline>\<newline>console.log(greet('World'));\<newline>```\<newline>\<newline>I can help you with code explanations, debugging, or writing new code!'']"

definition mockResponses_default :: "string list" where
  "mockResponses_default =
     [''That's a great question! Let me think about this...\<newline>\<newline>Based on my analysis, I can provide you with a comprehensive response. Is there anything specific you'd like me to focus on?'',
      ''I understand what you're asking. Here's my perspective on this topic.\<newline>\<newline>Would you like me to elaborate on any particular aspect?'',
      ''Thanks for your message! I'm processing your request and here's what I found relevant to share with you.'']"

text \<open>The table \<open>mockResponses\<close>, keyed by category, in the order of the source.\<close>

definition mockResponses :: "(string \<times> string list) list" where
  "mockResponses =
     [(''greeting'', mockResponses_greeting),
      (''image'', mockResponses_image),
      (''file'', mockResponses_file),
      (''code'', mockResponses_code),
      (''default'', mockResponses_default)]"

text \<open>
  A value of \<open>Math.random()\<close>: a number \<open>r\<close> with \<open>0 \<le> r < 1\<close>, taken as a real number.
\<close>

typedef random_unit = "{r::real. 0 \<le> r \<and> r < 1}"
  by (rule exI[of _ 0]) simp

text \<open>
  \<open>getRandomResponse\<close>: the element at index \<open>floor (r * length)\<close>. Reading an array
  out of range gives \<open>undefined\<close>, here \<open>None\<close>; that happens on the empty array only.
\<close>

definition random_index :: "nat \<Rightarrow> random_unit \<Rightarrow> nat" where
  "random_index n r = nat \<lfloor>Rep_random_unit r * real n\<rfloor>"

definition getRandomResponse :: "string list \<Rightarrow> random_unit \<Rightarrow> string option" where
  "getRandomResponse responses r =
     (let i = random_index (length responses) r
      in if i < length responses then Some (responses ! i) else None)"

text \<open>
  The two regular expressions of \<open>getResponseCategory\<close>, each tested on the lower-cased
  message. The first is anchored at the start:
  \<^verbatim>\<open>/^(hi|hello|hey|greetings|good\s*(morning|afternoon|evening))/i\<close>;
  after \<open>good\<close> any run of white space is skipped, and since none of the three words
  starts with white space the whole run is. The second matches anywhere:
  \<^verbatim>\<open>/code|function|programming|javascript|python|react|api/i\<close>.
\<close>

definition greeting_test :: "string \<Rightarrow> bool" where
  "greeting_test s \<longleftrightarrow>
     starts_ci ''hi'' s \<or> starts_ci ''hello'' s \<or> starts_ci ''hey'' s \<or>
     starts_ci ''greetings'' s \<or>
     (starts_ci ''good'' s \<and>
        (let rest = dropWhile is_space (drop 4 s)
         in starts_ci ''morning'' rest \<or> starts_ci ''afternoon'' rest \<or>
            starts_ci ''evening'' rest))"

definition code_test :: "string \<Rightarrow> bool" where
  "code_test s \<longleftrightarrow>
     includes_ci ''code'' s \<or> includes_ci ''function'' s \<or> includes_ci ''programming'' s \<or>
     includes_ci ''javascript'' s \<or> includes_ci ''python'' s \<or> includes_ci ''react'' s \<or>
     includes_ci ''api'' s"

definition getResponseCategory :: "ai_agent_payload \<Rightarrow> string" where
  "getResponseCategory payload =
     (let message = toLowerCase (p_message payload) in
      if greeting_test message then ''greeting''
      else if code_test message then ''code''
      else (case p_attachments payload of
              Some (firstAttachment # _) \<Rightarrow>
                if prefix ''image/'' (att_type firstAttachment) then ''image'' else ''file''
            | _ \<Rightarrow> ''default''))"

text \<open>\<open>mockResponses[category] || mockResponses.default\<close>.\<close>

definition responses_for :: "string \<Rightarrow> string list" where
  "responses_for category =
     (case map_of mockResponses category of None \<Rightarrow> mockResponses_default | Some pool \<Rightarrow> pool)"

text \<open>
  \<open>sendToAIAgent\<close> waits, picks the category and a response from its pool, and resolves;
  nothing in its \<open>try\<close> block throws, so it never takes its \<open>catch\<close> branch and never
  rejects. Every pool is non-empty, so the response is defined (see
  \<open>getRandomResponse_defined\<close> below); the branch for \<open>undefined\<close> is there only to
  make the function total.
\<close>

definition sendToAIAgent :: "random_unit \<Rightarrow> ai_agent_payload \<Rightarrow> ai_agent_response outcome" where
  "sendToAIAgent r payload =
     (let category = getResponseCategory payload;
          responses = responses_for category
      in Resolved \<lparr>r_type = TextContent,
                   r_content = (case getRandomResponse responses r of Some c \<Rightarrow> c | None \<Rightarrow> []),
                   r_attachments = None, r_error = None\<rparr>)"

section \<open>The chat store (store/chatStore.ts)\<close>

record chat_state =
  messages :: "message list"
  conversationId :: "string option"
  isTyping :: bool
  inputText :: string
  pendingAttachments :: "attachment list"
  error :: "string option"

definition initial_chat_state :: chat_state where
  "initial_chat_state =
     \<lparr>messages = [], conversationId = None, isTyping = False, inputText = [],
      pendingAttachments = [], error = None\<rparr>"

text \<open>
  The values that \<open>sendMessage\<close> draws from the clock and the random generator: the
  identifier and time of the user message, those of the assistant message, and the
  conversation identifier generated when there is none yet.
\<close>

record send_env =
  userMessageId :: string
  userMessageTime :: string
  aiMessageId :: string
  aiMessageTime :: string
  freshConversationId :: string

definition userMessage :: "string \<Rightarrow> attachment list \<Rightarrow> send_env \<Rightarrow> message" where
  "userMessage text atts env =
     \<lparr>msg_id = userMessageId env, role = UserRole, content = text, contentType = TextContent,
      attachments = (if length atts > 0 then Some atts else None),
      timestamp = userMessageTime env, isLoading = None\<rparr>"

definition aiMessage :: "ai_agent_response \<Rightarrow> send_env \<Rightarrow> message" where
  "aiMessage response env =
     \<lparr>msg_id = aiMessageId env, role = AssistantRole, content = r_content response,
      contentType = r_type response, attachments = r_attachments response,
      timestamp = aiMessageTime env, isLoading = None\<rparr>"

text \<open>
  \<open>sendMessage\<close> runs in two parts, with the \<open>await\<close> between them. The first part,
  up to the call of the agent: the user message is appended, input and pending
  attachments are cleared, the typing flag is set, the error is cleared.
\<close>

definition sendMessage_start :: "string \<Rightarrow> attachment list \<Rightarrow> send_env \<Rightarrow> chat_state \<Rightarrow> chat_state" where
  "sendMessage_start text atts env s =
     s\<lparr>messages := messages s @ [userMessage text atts env], inputText := [],
       pendingAttachments := [], isTyping := True, error := None\<rparr>"

text \<open>
  The payload is built from the state read by \<open>get()\<close> when \<open>sendMessage\<close> was called:
  \<open>s0\<close> below. \<open>conversationId || undefined\<close> drops a falsy identifier.
\<close>

definition sendMessage_payload :: "string \<Rightarrow> attachment list \<Rightarrow> chat_state \<Rightarrow> ai_agent_payload" where
  "sendMessage_payload text atts s0 =
     \<lparr>p_message = text, p_attachments = Some atts,
      p_conversationId = (if truthy (conversationId s0) then conversationId s0 else None),
      p_messageHistory = Some (messages s0)\<rparr>"

text \<open>\<open>conversationId || generateConversationId()\<close>, on the identifier read at the call.\<close>

definition conversationId_or :: "string option \<Rightarrow> string \<Rightarrow> string" where
  "conversationId_or c fresh = (case c of None \<Rightarrow> fresh | Some i \<Rightarrow> if i = [] then fresh else i)"

text \<open>
  The second part, once the agent's promise has settled, on the state \<open>s\<close> of that
  moment. \<open>c0\<close> is the conversation identifier read at the call. Resolved: the assistant
  message is appended and the typing flag cleared, then the response's error, if truthy,
  is stored. Rejected (the \<open>catch\<close> branch): typing flag cleared, generic error set.
\<close>

definition sendMessage_finish :: "string option \<Rightarrow> ai_agent_response outcome \<Rightarrow> send_env \<Rightarrow> chat_state \<Rightarrow> chat_state" where
  "sendMessage_finish c0 result env s =
     (case result of
        Resolved response \<Rightarrow>
          (let s' = s\<lparr>messages := messages s @ [aiMessage response env], isTyping := False,
                      conversationId := Some (conversationId_or c0 (freshConversationId env))\<rparr>
           in if truthy (r_error response) then s'\<lparr>error := r_error response\<rparr> else s')
      | Rejected \<Rightarrow>
          s\<lparr>isTyping := False, error := Some ''Failed to send message. Please try again.''\<rparr>)"

definition addMessage :: "message \<Rightarrow> chat_state \<Rightarrow> chat_state" where
  "addMessage m s = s\<lparr>messages := messages s @ [m]\<rparr>"

definition setInputText :: "string \<Rightarrow> chat_state \<Rightarrow> chat_state" where
  "setInputText text s = s\<lparr>inputText := text\<rparr>"

definition addAttachment :: "attachment \<Rightarrow> chat_state \<Rightarrow> chat_state" where
  "addAttachment a s = s\<lparr>pendingAttachments := pendingAttachments s @ [a]\<rparr>"

definition removeAttachment :: "string \<Rightarrow> chat_state \<Rightarrow> chat_state" where
  "removeAttachment i s = s\<lparr>pendingAttachments := filter (\<lambda>a. att_id a \<noteq> i) (pendingAttachments s)\<rparr>"

definition clearAttachments :: "chat_state \<Rightarrow> chat_state" where
  "clearAttachments s = s\<lparr>pendingAttachments := []\<rparr>"

definition clearMessages :: "chat_state \<Rightarrow> chat_state" where
  "clearMessages s = s\<lparr>messages := [], conversationId := None\<rparr>"

definition setError :: "string option \<Rightarrow> chat_state \<Rightarrow> chat_state" where
  "setError e s = s\<lparr>error := e\<rparr>"

definition newConversation :: "string \<Rightarrow> chat_state \<Rightarrow> chat_state" where
  "newConversation fresh s =
     s\<lparr>messages := [], conversationId := Some fresh, inputText := [],
       pendingAttachments := [], error := None\<rparr>"

text \<open>
  \<open>handleFileUpload\<close>: \<open>url\<close> is how \<open>uploadFile(file)\<close> settled (it returns
  \<open>URL.createObjectURL(file)\<close>), \<open>newId\<close> the generated attachment identifier. The
  result is the attachment, or \<open>None\<close> for \<open>null\<close>, and the new state.
\<close>

definition handleFileUpload :: "file_obj \<Rightarrow> string outcome \<Rightarrow> string \<Rightarrow> chat_state \<Rightarrow> attachment option \<times> chat_state" where
  "handleFileUpload f url newId s =
     (case url of
        Resolved u \<Rightarrow>
          (let a = \<lparr>att_id = newId, att_name = file_name f, att_type = file_type f,
                    att_size = file_size f, att_url = u,
                    att_preview = (if prefix ''image/'' (file_type f) then Some u else None)\<rparr>
           in (Some a, addAttachment a s))
      | Rejected \<Rightarrow> (None, s\<lparr>error := Some ''Failed to upload file. Please try again.''\<rparr>))"

text \<open>
  The operations of the store, one constructor for each action, with the two parts of
  \<open>sendMessage\<close> as separate steps: each step runs without interruption, and between
  the two parts other steps may run.
\<close>

datatype store_op =
    SendMessageStart string "attachment list" send_env
  | SendMessageFinish "string option" "ai_agent_response outcome" send_env
  | AddMessage message
  | SetInputText string
  | AddAttachment attachment
  | RemoveAttachment string
  | ClearAttachments
  | ClearMessages
  | SetError "string option"
  | NewConversation string
  | HandleFileUpload file_obj "string outcome" string

fun apply_op :: "store_op \<Rightarrow> chat_state \<Rightarrow> chat_state" where
  "apply_op (SendMessageStart text atts env) s = sendMessage_start text atts env s"
| "apply_op (SendMessageFinish c0 result env) s = sendMessage_finish c0 result env s"
| "apply_op (AddMessage m) s = addMessage m s"
| "apply_op (SetInputText text) s = setInputText text s"
| "apply_op (AddAttachment a) s = addAttachment a s"
| "apply_op (RemoveAttachment i) s = removeAttachment i s"
| "apply_op ClearAttachments s = clearAttachments s"
| "apply_op ClearMessages s = clearMessages s"
| "apply_op (SetError e) s = setError e s"
| "apply_op (NewConversation fresh) s = newConversation fresh s"
| "apply_op (HandleFileUpload f url newId) s = snd (handleFileUpload f url newId s)"


fun replaces_messages :: "store_op \<Rightarrow> bool" where
  "replaces_messages ClearMessages = True"
| "replaces_messages (NewConversation fresh) = True"
| "replaces_messages other = False"

text \<open>\<open>run ops s\<close>: the states the store passes through when \<open>ops\<close> run in turn from \<open>s\<close>.\<close>

fun run :: "store_op list \<Rightarrow> chat_state \<Rightarrow> chat_state list" where
  "run [] s = [s]"
| "run (a # ops) s = s # run ops (apply_op a s)"

text \<open>
  A whole \<open>sendMessage\<close> with the steps \<open>gap\<close> of other actions running while the agent
  is awaited: the states from the first part to the moment before the second part
  (\<open>send_gap\<close>), and the state after the second part (\<open>sendMessage\<close>). \<open>agent\<close> is the
  function called for the response, \<open>sendToAIAgent\<close> in the application.
\<close>

definition send_gap :: "string \<Rightarrow> attachment list \<Rightarrow> send_env \<Rightarrow> store_op list \<Rightarrow> chat_state \<Rightarrow> chat_state list" where
  "send_gap text atts env gap s = run gap (sendMessage_start text atts env s)"

definition sendMessage :: "string \<Rightarrow> attachment list \<Rightarrow> (ai_agent_payload \<Rightarrow> ai_agent_response outcome) \<Rightarrow> send_env \<Rightarrow> store_op list \<Rightarrow> chat_state \<Rightarrow> chat_state" where
  "sendMessage text atts agent env gap s =
     sendMessage_finish (conversationId s) (agent (sendMessage_payload text atts s)) env
       (last (send_gap text atts env gap s))"

section \<open>The chat hook (hooks/useChat.ts)\<close>

text \<open>
  The hook's \<open>sendMessage\<close>: it returns at once when the trimmed text is empty and
  no attachment is pending; otherwise the store's \<open>sendMessage\<close> runs with the pending
  attachments. The result is the state of the store when the call has completed.
\<close>

definition useChat_sendMessage :: "string \<Rightarrow> (ai_agent_payload \<Rightarrow> ai_agent_response outcome) \<Rightarrow> send_env \<Rightarrow> store_op list \<Rightarrow> chat_state \<Rightarrow> chat_state" where
  "useChat_sendMessage text agent env gap s =
     (if trim text = [] \<and> length (pendingAttachments s) = 0 then s
      else sendMessage text (pendingAttachments s) agent env gap s)"

section \<open>The voice recorder hook (hooks/useVoiceRecorder.ts)\<close>

subsection \<open>The browser objects the hook holds\<close>

text \<open>
  The hook keeps references to objects of the browser: a \<open>MediaRecorder\<close>, the
  \<open>MediaStream\<close> it records and an interval timer. The objects outlive the
  references, so they live in stores indexed by an identity, and a reference is an
  optional identity (\<open>None\<close> for \<open>null\<close>).

  What the browser does with these objects is not code of the repository; it is
  modelled after the platform (MediaStream Recording, and the timers of HTML):
  \<^item> a recorder is \<open>inactive\<close>, \<open>recording\<close> or \<open>paused\<close>; while it records with a time
    slice it fires \<open>dataavailable\<close> with each chunk;
  \<^item> \<open>stop()\<close> does nothing on an inactive recorder; otherwise it makes the recorder
    inactive and schedules one last \<open>dataavailable\<close> with the data gathered so far,
    followed by the \<open>stop\<close> event (\<open>final_pending\<close> below);
  \<^item> \<open>track.stop()\<close> ends a track; \<open>clearInterval\<close> cancels a timer, whose callback
    then never runs again.
\<close>

datatype recording_state = Inactive | Recording | Paused

datatype track_state = Live | Ended

record blob =
  blob_size :: nat
  blob_type :: string

text \<open>
  A recorder object: its state, the stream it records, whether the hook's
  \<open>ondataavailable\<close> and \<open>onstop\<close> handlers are attached, and whether the events
  scheduled by \<open>stop()\<close> are still to come.
\<close>

record media_recorder =
  rec_state :: recording_state
  rec_stream :: nat
  ondataavailable :: bool
  onstop :: bool
  final_pending :: bool

text \<open>
  The state of the hook (\<open>isRecording\<close>, \<open>recordingDuration\<close>, \<open>recordingError\<close>), its
  four references, and the browser's objects: recorders, the tracks of each stream, and
  the set of running interval timers.
\<close>

record recorder_world =
  isRecording :: bool
  recordingDuration :: nat
  recordingError :: "string option"
  mediaRecorderRef :: "nat option"
  chunksRef :: "blob list"
  timerRef :: "nat option"
  streamRef :: "nat option"
  recorders :: "nat \<Rightarrow> media_recorder option"
  streams :: "nat \<Rightarrow> track_state list option"
  intervals :: "nat set"

definition idle_world :: recorder_world where
  "idle_world =
     \<lparr>isRecording = False, recordingDuration = 0, recordingError = None,
      mediaRecorderRef = None, chunksRef = [], timerRef = None, streamRef = None,
      recorders = (\<lambda>i. None), streams = (\<lambda>i. None), intervals = {}\<rparr>"

definition clearInterval :: "nat \<Rightarrow> recorder_world \<Rightarrow> recorder_world" where
  "clearInterval t w = w\<lparr>intervals := intervals w - {t}\<rparr>"

definition MediaRecorder_stop :: "nat \<Rightarrow> recorder_world \<Rightarrow> recorder_world" where
  "MediaRecorder_stop rid w =
     (case recorders w rid of
        None \<Rightarrow> w
      | Some r \<Rightarrow>
          if rec_state r = Inactive then w
          else w\<lparr>recorders := (recorders w)(rid \<mapsto> r\<lparr>rec_state := Inactive, final_pending := True\<rparr>)\<rparr>)"

text \<open>\<open>stream.getTracks().forEach((track) => track.stop())\<close>.\<close>

definition stop_tracks :: "nat \<Rightarrow> recorder_world \<Rightarrow> recorder_world" where
  "stop_tracks sid w =
     (case streams w sid of
        None \<Rightarrow> w
      | Some ts \<Rightarrow> w\<lparr>streams := (streams w)(sid \<mapsto> map (\<lambda>t. Ended) ts)\<rparr>)"

subsection \<open>The functions of the hook\<close>

text \<open>
  \<open>startRecording\<close>. \<open>media\<close> is how \<open>getUserMedia\<close> settled: with the tracks of a new
  stream, or by throwing. \<open>supported\<close> tells whether \<open>new MediaRecorder\<close> succeeds
  (it throws for a MIME type the browser cannot record).
  \<open>sid\<close>, \<open>rid\<close> and \<open>tid\<close> are the identities of the new stream, recorder and timer.
  The function is one step here: what may happen while \<open>getUserMedia\<close> is awaited is
  not modelled.
\<close>

definition startRecording :: "track_state list outcome \<Rightarrow> bool \<Rightarrow> nat \<Rightarrow> nat \<Rightarrow> nat \<Rightarrow> recorder_world \<Rightarrow> recorder_world" where
  "startRecording media supported sid rid tid w =
     (let w0 = w\<lparr>recordingError := None, chunksRef := []\<rparr>;
          denied = ''Microphone access denied. Please allow microphone access to record voice messages.''
      in case media of
           Rejected \<Rightarrow> w0\<lparr>recordingError := Some denied\<rparr>
         | Resolved ts \<Rightarrow>
             (let w1 = w0\<lparr>streams := (streams w0)(sid \<mapsto> ts), streamRef := Some sid\<rparr>
              in if \<not> supported then w1\<lparr>recordingError := Some denied\<rparr>
                 else w1\<lparr>recorders := (recorders w1)(rid \<mapsto>
                              \<lparr>rec_state = Recording, rec_stream = sid, ondataavailable = True,
                               onstop = False, final_pending = False\<rparr>),
                          mediaRecorderRef := Some rid,
                          isRecording := True, recordingDuration := 0,
                          intervals := insert tid (intervals w1), timerRef := Some tid\<rparr>))"

text \<open>The handler attached by \<open>startRecording\<close>: a chunk of positive size is kept.\<close>

definition ondataavailable_handler :: "blob \<Rightarrow> recorder_world \<Rightarrow> recorder_world" where
  "ondataavailable_handler b w =
     (if blob_size b > 0 then w\<lparr>chunksRef := chunksRef w @ [b]\<rparr> else w)"

text \<open>The callback of the interval timer.\<close>

definition timer_callback :: "recorder_world \<Rightarrow> recorder_world" where
  "timer_callback w = w\<lparr>recordingDuration := recordingDuration w + 1\<rparr>"

text \<open>
  The \<open>onstop\<close> handler that \<open>stopRecording\<close> installs: it assembles the chunks into
  one blob, releases the stream, clears the references and resolves the promise of
  \<open>stopRecording\<close> with the blob.
\<close>

definition onstop_handler :: "recorder_world \<Rightarrow> blob \<times> recorder_world" where
  "onstop_handler w =
     (let b = \<lparr>blob_size = sum_list (map blob_size (chunksRef w)), blob_type = ''audio/webm''\<rparr>;
          w1 = (case streamRef w of None \<Rightarrow> w | Some sid \<Rightarrow> stop_tracks sid w)
      in (b, w1\<lparr>streamRef := None, mediaRecorderRef := None, isRecording := False,
                recordingDuration := 0\<rparr>))"

text \<open>
  The call of \<open>stopRecording\<close>, up to the return of its promise. The first component
  is \<open>Some None\<close> when the promise is resolved with \<open>null\<close> at once (there is no
  recorder or no stream), and \<open>None\<close> when it stays pending until the \<open>stop\<close> event.
  A timer identity is a positive number, so a timer reference that is set is truthy.
\<close>

definition stopRecording :: "recorder_world \<Rightarrow> blob option option \<times> recorder_world" where
  "stopRecording w =
     (case (mediaRecorderRef w, streamRef w) of
        (Some rid, Some sid) \<Rightarrow>
          (let w1 = (case timerRef w of None \<Rightarrow> w | Some t \<Rightarrow> (clearInterval t w)\<lparr>timerRef := None\<rparr>);
               w2 = (case recorders w1 rid of
                       None \<Rightarrow> w1
                     | Some r \<Rightarrow> w1\<lparr>recorders := (recorders w1)(rid \<mapsto> r\<lparr>onstop := True\<rparr>)\<rparr>)
           in (None, MediaRecorder_stop rid w2))
      | _ \<Rightarrow> (Some None, w))"

text \<open>
  \<open>cancelRecording\<close>, statement by statement: the timer, the recorder (stopped unless
  inactive), the stream, then the references, the chunk list and the two state cells.
\<close>

definition cancelRecording :: "recorder_world \<Rightarrow> recorder_world" where
  "cancelRecording w =
     (let w1 = (case timerRef w of None \<Rightarrow> w | Some t \<Rightarrow> (clearInterval t w)\<lparr>timerRef := None\<rparr>);
          w2 = (case mediaRecorderRef w1 of
                  None \<Rightarrow> w1
                | Some rid \<Rightarrow>
                    (case recorders w1 rid of
                       None \<Rightarrow> w1
                     | Some r \<Rightarrow> if rec_state r \<noteq> Inactive then MediaRecorder_stop rid w1 else w1));
          w3 = (case streamRef w2 of
                  None \<Rightarrow> w2
                | Some sid \<Rightarrow> (stop_tracks sid w2)\<lparr>streamRef := None\<rparr>)
      in w3\<lparr>mediaRecorderRef := None, chunksRef := [], isRecording := False,
             recordingDuration := 0\<rparr>)"

subsection \<open>The events the browser delivers\<close>

text \<open>
  \<open>deliver_data rid b w\<close>: the browser fires \<open>dataavailable\<close> with the blob \<open>b\<close> at the
  recorder \<open>rid\<close>. The result is \<open>None\<close> when the browser cannot fire that event: the
  recorder does not exist, or it is not recording and \<open>stop()\<close> has scheduled
  nothing. While the recorder records, the event runs the handler (if attached). For
  the last event scheduled by \<open>stop()\<close>, the handler runs, then the \<open>stop\<close> event fires
  and runs \<open>onstop\<close> (if attached). The first component of the result is the blob that \<open>onstop\<close> resolved the
  promise of \<open>stopRecording\<close> with, if it did: the blob from which the chat input makes
  the voice attachment.
\<close>

definition deliver_data :: "nat \<Rightarrow> blob \<Rightarrow> recorder_world \<Rightarrow> (blob option \<times> recorder_world) option" where
  "deliver_data rid b w =
     (case recorders w rid of
        None \<Rightarrow> None
      | Some r \<Rightarrow>
          (let w1 = (if ondataavailable r then ondataavailable_handler b w else w) in
           if rec_state r = Recording then Some (None, w1)
           else if final_pending r then
             (let w2 = w1\<lparr>recorders := (recorders w1)(rid \<mapsto> r\<lparr>final_pending := False\<rparr>)\<rparr>
              in if onstop r then Some (Some (fst (onstop_handler w2)), snd (onstop_handler w2))
                 else Some (None, w2))
           else None))"

text \<open>\<open>tick t w\<close>: the timer \<open>t\<close> fires; \<open>None\<close> when it has been cleared.\<close>

definition tick :: "nat \<Rightarrow> recorder_world \<Rightarrow> recorder_world option" where
  "tick t w = (if t \<in> intervals w then Some (timer_callback w) else None)"

text \<open>
  What happens to the hook after a cancel, other than a new \<open>startRecording\<close>: the
  browser delivers data or fires a timer, or the user interface calls \<open>stopRecording\<close>
  or \<open>cancelRecording\<close> again. \<open>fire e w\<close> is \<open>None\<close> when the browser cannot deliver
  the event; otherwise it gives the blob that a promise of \<open>stopRecording\<close> was resolved
  with, if one was, and the new state.
\<close>

datatype recorder_event = DataEvent nat blob | TickEvent nat | StopCall | CancelCall

fun fire :: "recorder_event \<Rightarrow> recorder_world \<Rightarrow> (blob option \<times> recorder_world) option" where
  "fire (DataEvent i b) w = deliver_data i b w"
| "fire (TickEvent t) w = map_option (\<lambda>w'. (None, w')) (tick t w)"
| "fire StopCall w =
     Some (case fst (stopRecording w) of Some (Some b) \<Rightarrow> Some b | _ \<Rightarrow> None, snd (stopRecording w))"
| "fire CancelCall w = Some (None, cancelRecording w)"

text \<open>
  \<open>after_events es w\<close>: the events \<open>es\<close> in turn from \<open>w\<close>, an event that cannot be
  delivered being skipped; the result is the list of blobs resolved on the way and the
  state reached.
\<close>

fun after_events :: "recorder_event list \<Rightarrow> recorder_world \<Rightarrow> blob list \<times> recorder_world" where
  "after_events [] w = ([], w)"
| "after_events (e # es) w =
     (case fire e w of
        None \<Rightarrow> after_events es w
      | Some (res, w') \<Rightarrow>
          ((case res of None \<Rightarrow> [] | Some b \<Rightarrow> [b]) @ fst (after_events es w'),
           snd (after_events es w')))"

text \<open>
  The hook at rest: no recorder is active or has events scheduled, no timer of the
  hook runs and no track is live.
\<close>

definition at_rest :: "recorder_world \<Rightarrow> bool" where
  "at_rest w \<longleftrightarrow>
     (\<forall>i r. recorders w i = Some r \<longrightarrow> rec_state r = Inactive \<and> \<not> final_pending r) \<and>
     intervals w = {} \<and>
     (\<forall>s ts. streams w s = Some ts \<longrightarrow> (\<forall>t \<in> set ts. t = Ended))"

text \<open>
  \<open>sole_recording w rid sid tid\<close>: one recording is in progress and nothing else is
  going on. The three references are set to the recorder \<open>rid\<close>, the stream \<open>sid\<close> and
  the timer \<open>tid\<close>; the recorder records that stream with the hook's data handler
  attached and no stop requested; that timer is the only one running; no other
  recorder is active or has events scheduled, and no other stream has a live track.
  This is the state that \<open>startRecording\<close> reaches from rest
  (\<open>startRecording_sole_recording\<close> below), and that chunks and timer ticks preserve.
  It is narrower than a set recording flag: it leaves out the states after a second
  \<open>startRecording\<close> without a cancel or stop in between, and after \<open>stopRecording\<close> has
  been called and before its \<open>stop\<close> event.
\<close>

definition sole_recording :: "recorder_world \<Rightarrow> nat \<Rightarrow> nat \<Rightarrow> nat \<Rightarrow> bool" where
  "sole_recording w rid sid tid \<longleftrightarrow>
     isRecording w \<and> mediaRecorderRef w = Some rid \<and> streamRef w = Some sid \<and>
     timerRef w = Some tid \<and> intervals w = {tid} \<and> streams w sid \<noteq> None \<and>
     recorders w rid =
       Some \<lparr>rec_state = Recording, rec_stream = sid, ondataavailable = True, onstop = False,
             final_pending = False\<rparr> \<and>
     (\<forall>other r. other \<noteq> rid \<and> recorders w other = Some r \<longrightarrow>
        rec_state r = Inactive \<and> \<not> final_pending r) \<and>
     (\<forall>s ts. s \<noteq> sid \<and> streams w s = Some ts \<longrightarrow> (\<forall>t \<in> set ts. t = Ended))"

text \<open>
  The recording of recorder \<open>rid\<close> has been cancelled and no new one started: the
  references are cleared, flag and counter are reset, no timer runs, no track is live,
  every recorder is inactive, and only \<open>rid\<close> may still have its last data event to
  come, with no \<open>onstop\<close> handler and, until then, an empty chunk list.
\<close>

definition cancelled :: "recorder_world \<Rightarrow> nat \<Rightarrow> bool" where
  "cancelled w rid \<longleftrightarrow>
     mediaRecorderRef w = None \<and> streamRef w = None \<and> timerRef w = None \<and>
     \<not> isRecording w \<and> recordingDuration w = 0 \<and> intervals w = {} \<and>
     length (chunksRef w) \<le> 1 \<and>
     (\<forall>i r. recorders w i = Some r \<longrightarrow>
        rec_state r = Inactive \<and> (final_pending r \<longrightarrow> i = rid \<and> \<not> onstop r \<and> chunksRef w = [])) \<and>
     (\<forall>s ts. streams w s = Some ts \<longrightarrow> (\<forall>t \<in> set ts. t = Ended))"

section \<open>The categories of a message, as the specification words them\<close>

text \<open>
  These predicates are not taken from the code: they say in terms of prefixes and
  sublists what the specification says of the lower-cased message, to be compared with
  the regular expressions of \<open>getResponseCategory\<close>. A message starts with a greeting
  when one of the four greeting words is a prefix of it, or \<open>good\<close>, any white space
  and one of the three parts of the day is; it has a code keyword when one of the seven
  keywords occurs in it.
\<close>

definition greeting_words :: "string list" where
  "greeting_words = [''hi'', ''hello'', ''hey'', ''greetings'']"

definition day_parts :: "string list" where
  "day_parts = [''morning'', ''afternoon'', ''evening'']"

definition code_keywords :: "string list" where
  "code_keywords = [''code'', ''function'', ''programming'', ''javascript'', ''python'', ''react'', ''api'']"

definition starts_with_greeting :: "string \<Rightarrow> bool" where
  "starts_with_greeting m \<longleftrightarrow>
     (\<exists>g \<in> set greeting_words. prefix g m) \<or>
     (\<exists>ws. (\<forall>c \<in> set ws. is_space c) \<and> (\<exists>w \<in> set day_parts. prefix (''good'' @ ws @ w) m))"

definition has_code_keyword :: "string \<Rightarrow> bool" where
  "has_code_keyword m \<longleftrightarrow> (\<exists>k \<in> set code_keywords. sublist k m)"

section \<open>Example inputs\<close>

definition big_pdf :: file_obj where
  "big_pdf = \<lparr>file_name = ''scan.pdf'', file_type = ''application/pdf'', file_size = 10485761\<rparr>"

definition big_archive :: file_obj where
  "big_archive = \<lparr>file_name = ''backup.zip'', file_type = ''application/zip'', file_size = 20000000\<rparr>"

definition big_video :: file_obj where
  "big_video = \<lparr>file_name = ''clip.mp4'', file_type = ''video/mp4'', file_size = 52428800\<rparr>"

definition alice :: stored_user where
  "alice = \<lparr>user_id = ''user_1'', name = ''Alice'', email = ''alice@example.com'',
             mobile = ''5550100100'', createdAt = ''2024-01-01T00:00:00.000Z'',
             password = ''secret1''\<rparr>"

definition storage_with_alice :: local_storage where
  "storage_with_alice = \<lparr>ai_chat_users = Some [alice], ai_chat_current_user = None\<rparr>"

definition bob_form :: register_form_data where
  "bob_form = \<lparr>reg_name = ''Bob'', reg_email = ''bob@example.com'', reg_mobile = ''5550100200'',
                reg_password = ''hunter22'', reg_confirmPassword = ''hunter22''\<rparr>"

definition alice_again_form :: register_form_data where
  "alice_again_form = \<lparr>reg_name = ''Alice B'', reg_email = ''alice@example.com'',
                        reg_mobile = ''5550100300'', reg_password = ''another'',
                        reg_confirmPassword = ''another''\<rparr>"



definition clock :: send_env where
  "clock = \<lparr>userMessageId = ''msg_1'', userMessageTime = ''2024-05-05T10:00:00.000Z'',
            aiMessageId = ''msg_2'', aiMessageTime = ''2024-05-05T10:00:01.000Z'',
            freshConversationId = ''conv_1''\<rparr>"

definition earlier_message :: message where
  "earlier_message =
     \<lparr>msg_id = ''msg_0'', role = AssistantRole, content = ''Welcome'', contentType = TextContent,
      attachments = None, timestamp = ''2024-05-05T09:00:00.000Z'', isLoading = None\<rparr>"

definition busy_chat :: chat_state where
  "busy_chat =
     \<lparr>messages = [earlier_message], conversationId = Some ''conv_0'', isTyping = False,
      inputText = ''   '', pendingAttachments = [], error = Some ''old error''\<rparr>"

definition failing_agent :: "ai_agent_payload \<Rightarrow> ai_agent_response outcome" where
  "failing_agent payload = Rejected"

definition half :: random_unit where
  "half = Abs_random_unit (1 / 2)"

definition hello_reply :: ai_agent_response where
  "hello_reply =
     \<lparr>r_type = TextContent,
      r_content = ''Hi there! I'm ready to assist you with any questions or tasks.'',
      r_attachments = None, r_error = None\<rparr>"

definition hello_payload :: ai_agent_payload where
  "hello_payload =
     \<lparr>p_message = ''Hello there'', p_attachments = Some [], p_conversationId = None,
      p_messageHistory = Some []\<rparr>"

definition first_chunk :: blob where
  "first_chunk = \<lparr>blob_size = 1600, blob_type = ''audio/webm''\<rparr>"

definition late_chunk :: blob where
  "late_chunk = \<lparr>blob_size = 7, blob_type = ''audio/webm''\<rparr>"

text \<open>
  A recording started at rest on a microphone with one track (stream 0, recorder 0,
  timer 1), after its first chunk has arrived.
\<close>

definition recording_world :: recorder_world where
  "recording_world =
     ondataavailable_handler first_chunk
       (startRecording (Resolved [Live]) True 0 0 1 idle_world)"

text \<open>
  The same recording after \<open>stopRecording\<close> has been called and before the \<open>stop\<close>
  event; and a second \<open>startRecording\<close> (stream 1, recorder 1, timer 2) on top of a
  first one that was neither stopped nor cancelled.
\<close>

definition stopping_world :: recorder_world where
  "stopping_world = snd (stopRecording recording_world)"

definition twice_started_world :: recorder_world where
  "twice_started_world =
     startRecording (Resolved [Live]) True 1 1 2
       (startRecording (Resolved [Live]) True 0 0 1 idle_world)"





section \<open>Properties of file validation\<close>

lemma MAX_FILE_SIZE_value: "MAX_FILE_SIZE = 10485760"
  by (simp add: MAX_FILE_SIZE_def)

lemma validateFile_valid_iff:
  "valid (validateFile f) \<longleftrightarrow> file_type f \<in> set allAllowedTypes \<and> file_size f \<le> MAX_FILE_SIZE"
  by (simp add: validateFile_def)

lemma select_first_invalid:
  "\<not> valid (validateFile f) \<Longrightarrow>
     select_first (Some (f # fs)) cb (h, app) =
       (h\<lparr>uploadError := Some (error_or_invalid (validation_error (validateFile f)))\<rparr>, app)"
  by (simp add: select_first_def Let_def)

lemma error_or_invalid_validateFile:
  "\<not> valid (validateFile f) \<Longrightarrow>
     Some (error_or_invalid (validation_error (validateFile f))) = validation_error (validateFile f)"
  by (simp add: validateFile_def error_or_invalid_def split: if_splits)

lemma allowed_pdf: "''application/pdf'' \<in> set allAllowedTypes"
  by (simp add: allAllowedTypes_def AllowedFileTypes_documents_def)

lemma not_allowed_zip: "''application/zip'' \<notin> set allAllowedTypes"
  by (simp add: allAllowedTypes_def AllowedFileTypes_images_def AllowedFileTypes_documents_def
        AllowedFileTypes_audio_def)

lemma not_allowed_mp4: "''video/mp4'' \<notin> set allAllowedTypes"
  by (simp add: allAllowedTypes_def AllowedFileTypes_images_def AllowedFileTypes_documents_def
        AllowedFileTypes_audio_def)

text \<open>
  Claim C5, as the code has it. The allow-list is the eleven MIME types of the images,
  documents and audio groups. \<open>validateFile\<close> accepts a file exactly when its type is
  in the allow-list and its size is at most 10485760 bytes. A file of an allowed type
  that is larger is rejected with the size-limit error string; a file of a type
  outside the allow-list is rejected with the type error string, whatever its size.
  When the first file offered by a drop or a file selection is rejected, the callback
  is not called: the state it would act on (in the chat input, the store with its
  pending attachments) is unchanged, and the hook's upload error is the error string
  of the validation.
\<close>

theorem validateFile_spec:
  "set allAllowedTypes =
     {''image/jpeg'', ''image/png'', ''image/gif'', ''image/webp'',
      ''application/pdf'', ''text/plain'', ''application/msword'',
      ''audio/mp3'', ''audio/wav'', ''audio/webm'', ''audio/ogg''}
   \<and> (valid (validateFile f) \<longleftrightarrow> file_type f \<in> set allAllowedTypes \<and> file_size f \<le> 10485760)
   \<and> (file_type f \<in> set allAllowedTypes \<and> file_size f > 10485760 \<longrightarrow>
        validateFile f = \<lparr>valid = False, validation_error = Some ''File size exceeds 10MB limit''\<rparr>)
   \<and> (file_type f \<notin> set allAllowedTypes \<longrightarrow>
        validateFile f = \<lparr>valid = False, validation_error = Some ''File type not supported''\<rparr>)
   \<and> (\<not> valid (validateFile f) \<longrightarrow>
        snd (handleDrop (Some (f # fs)) onFileSelect (h, app)) = app \<and>
        snd (handleFileSelect (Some (f # fs)) onFileSelect (h, app)) = app \<and>
        uploadError (fst (handleDrop (Some (f # fs)) onFileSelect (h, app))) = validation_error (validateFile f) \<and>
        uploadError (fst (handleFileSelect (Some (f # fs)) onFileSelect (h, app))) = validation_error (validateFile f))"
proof (intro conjI impI)
  show "set allAllowedTypes =
     {''image/jpeg'', ''image/png'', ''image/gif'', ''image/webp'',
      ''application/pdf'', ''text/plain'', ''application/msword'',
      ''audio/mp3'', ''audio/wav'', ''audio/webm'', ''audio/ogg''}"
    by (simp add: allAllowedTypes_def AllowedFileTypes_images_def AllowedFileTypes_documents_def
        AllowedFileTypes_audio_def)
next
  show "valid (validateFile f) \<longleftrightarrow> file_type f \<in> set allAllowedTypes \<and> file_size f \<le> 10485760"
    by (simp add: validateFile_valid_iff MAX_FILE_SIZE_value)
next
  assume "file_type f \<in> set allAllowedTypes \<and> file_size f > 10485760"
  then show "validateFile f = \<lparr>valid = False, validation_error = Some ''File size exceeds 10MB limit''\<rparr>"
    by (simp add: validateFile_def MAX_FILE_SIZE_value)
next
  assume "file_type f \<notin> set allAllowedTypes"
  then show "validateFile f = \<lparr>valid = False, validation_error = Some ''File type not supported''\<rparr>"
    by (simp add: validateFile_def)
next
  assume inv: "\<not> valid (validateFile f)"
  show "snd (handleDrop (Some (f # fs)) onFileSelect (h, app)) = app"
    using inv by (simp add: handleDrop_def select_first_invalid)
  show "snd (handleFileSelect (Some (f # fs)) onFileSelect (h, app)) = app"
    using inv by (simp add: handleFileSelect_def select_first_invalid)
  show "uploadError (fst (handleDrop (Some (f # fs)) onFileSelect (h, app))) = validation_error (validateFile f)"
    using inv by (simp add: handleDrop_def select_first_invalid error_or_invalid_validateFile)
  show "uploadError (fst (handleFileSelect (Some (f # fs)) onFileSelect (h, app))) = validation_error (validateFile f)"
    using inv by (simp add: handleFileSelect_def select_first_invalid error_or_invalid_validateFile)
qed

text \<open>
  The theorem at a PDF of 10485761 bytes, dropped while the callback would count the
  files it receives, and at a ZIP archive of 20000000 bytes.
\<close>

theorem validateFile_spec_witness:
  "file_type big_pdf \<in> set allAllowedTypes \<and> file_size big_pdf > 10485760
   \<and> validateFile big_pdf = \<lparr>valid = False, validation_error = Some ''File size exceeds 10MB limit''\<rparr>
   \<and> \<not> valid (validateFile big_pdf)
   \<and> snd (handleDrop (Some [big_pdf]) (\<lambda>f n. Suc n) (\<lparr>isDragging = True, uploadError = None, dragCounter = 1\<rparr>, 0::nat)) = 0
   \<and> file_type big_archive \<notin> set allAllowedTypes
   \<and> validateFile big_archive = \<lparr>valid = False, validation_error = Some ''File type not supported''\<rparr>"
  using validateFile_spec [of big_pdf "[]" "\<lambda>f n. Suc n" "\<lparr>isDragging = True, uploadError = None, dragCounter = 1\<rparr>" "0::nat"]
    validateFile_spec [of big_archive "[]" "\<lambda>f n. Suc n" "\<lparr>isDragging = True, uploadError = None, dragCounter = 1\<rparr>" "0::nat"]
  by (simp add: big_pdf_def big_archive_def allowed_pdf not_allowed_zip)

text \<open>
  Claim C5 as it was stated has every file larger than 10 MB rejected with the
  size-limit error string. The ZIP archive of 20000000 bytes is larger than 10 MB and
  is rejected with the type error string instead.
\<close>

theorem validateFile_oversize_counterexample:
  "file_size big_archive > 10485760
   \<and> validateFile big_archive \<noteq> \<lparr>valid = False, validation_error = Some ''File size exceeds 10MB limit''\<rparr>
   \<and> validation_error (validateFile big_archive) = Some ''File type not supported''"
  by (simp add: big_archive_def validateFile_def not_allowed_zip)

text \<open>
  Claim C9: \<open>validateFile\<close> tests the MIME type before the size. A file whose type is
  outside the allow-list and whose size exceeds 10 MB is rejected with the type error
  string \<open>File type not supported\<close>, never with the size-limit error string.
\<close>

theorem validateFile_type_first:
  "file_type f \<notin> set allAllowedTypes \<Longrightarrow> file_size f > 10485760 \<Longrightarrow>
     validateFile f = \<lparr>valid = False, validation_error = Some ''File type not supported''\<rparr>
     \<and> validation_error (validateFile f) \<noteq> Some ''File size exceeds 10MB limit''"
  by (simp add: validateFile_def)

text \<open>The theorem at an MP4 video of 50 MB.\<close>

theorem validateFile_type_first_witness:
  "file_type big_video \<notin> set allAllowedTypes \<and> file_size big_video > 10485760
   \<and> validateFile big_video = \<lparr>valid = False, validation_error = Some ''File type not supported''\<rparr>
   \<and> validation_error (validateFile big_video) \<noteq> Some ''File size exceeds 10MB limit''"
  using validateFile_type_first [of big_video]
  by (simp add: big_video_def not_allowed_mp4)

section \<open>Properties of the mock authentication\<close>


lemma getStoredUsers_saveUsers: "getStoredUsers (saveUsers us (Some ls)) = us"
  by (simp add: getStoredUsers_def saveUsers_def)

lemma list_ex_email: "list_ex (\<lambda>u. email u = e) us \<longleftrightarrow> (\<exists>u\<in>set us. email u = e)"
  by (simp add: list_ex_iff)

text \<open>
  Claim C1: for every registration input and every stored user list, \<open>registerUser\<close>
  fails if and only if some stored user has the same email string, and then with the
  error \<open>Email already registered\<close>; otherwise the stored list becomes the old list
  followed by exactly one new record, which holds the submitted name, email and mobile
  and the password as submitted, and the call returns success with the user without
  the password (a value of type \<open>user\<close>, which has no password field).
\<close>

theorem registerUser_spec:
  "(success (fst (registerUser d newId now (Some ls))) = False
      \<longleftrightarrow> (\<exists>u \<in> set (getStoredUsers (Some ls)). email u = reg_email d))
   \<and> ((\<exists>u \<in> set (getStoredUsers (Some ls)). email u = reg_email d) \<longrightarrow>
        fst (registerUser d newId now (Some ls)) =
          \<lparr>success = False, auth_user = None, auth_error = Some ''Email already registered''\<rparr>)
   \<and> (\<not> (\<exists>u \<in> set (getStoredUsers (Some ls)). email u = reg_email d) \<longrightarrow>
        getStoredUsers (snd (registerUser d newId now (Some ls))) =
          getStoredUsers (Some ls) @
            [\<lparr>user_id = newId, name = reg_name d, email = reg_email d, mobile = reg_mobile d,
              createdAt = now, password = reg_password d\<rparr>]
        \<and> fst (registerUser d newId now (Some ls)) =
            \<lparr>success = True,
             auth_user = Some \<lparr>user_id = newId, name = reg_name d, email = reg_email d,
                               mobile = reg_mobile d, createdAt = now\<rparr>,
             auth_error = None\<rparr>)"
  by (simp add: registerUser_def Let_def list_ex_email getStoredUsers_saveUsers withoutPassword_def)


text \<open>
  The theorem where Alice is stored: Bob registers with another email, then a second
  registration with Alice's email fails.
\<close>

theorem registerUser_spec_witness:
  "\<not> (\<exists>u \<in> set (getStoredUsers (Some storage_with_alice)). email u = reg_email bob_form)
   \<and> length (getStoredUsers (snd (registerUser bob_form ''user_2'' ''2024-02-02T00:00:00.000Z'' (Some storage_with_alice)))) = 2
   \<and> success (fst (registerUser bob_form ''user_2'' ''2024-02-02T00:00:00.000Z'' (Some storage_with_alice)))
   \<and> (\<exists>u \<in> set (getStoredUsers (Some storage_with_alice)). email u = reg_email alice_again_form)
   \<and> auth_error (fst (registerUser alice_again_form ''user_3'' ''2024-03-03T00:00:00.000Z'' (Some storage_with_alice)))
       = Some ''Email already registered''"
  using registerUser_spec [of bob_form "''user_2''" "''2024-02-02T00:00:00.000Z''" storage_with_alice]
    registerUser_spec [of alice_again_form "''user_3''" "''2024-03-03T00:00:00.000Z''" storage_with_alice]
  by (simp add: getStoredUsers_def storage_with_alice_def alice_def bob_form_def alice_again_form_def)










section \<open>Properties of the chat store\<close>




lemma run_nonempty: "run ops s \<noteq> []"
  by (cases ops) simp_all

lemma last_run_in: "last (run ops s) \<in> set (run ops s)"
  by (simp add: run_nonempty)

lemma apply_op_prefix:
  "\<not> replaces_messages a \<Longrightarrow> prefix (messages s) (messages (apply_op a s))"
  by (cases a)
     (simp_all add: sendMessage_start_def sendMessage_finish_def addMessage_def setInputText_def
        addAttachment_def removeAttachment_def clearAttachments_def setError_def
        handleFileUpload_def Let_def split: outcome.splits)

lemma apply_op_replaces:
  "replaces_messages a \<Longrightarrow> messages (apply_op a s) = []"
  by (cases a) (simp_all add: clearMessages_def newConversation_def)

lemma run_prefix:
  "\<forall>a \<in> set ops. \<not> replaces_messages a \<Longrightarrow> \<forall>g \<in> set (run ops s). prefix (messages s) (messages g)"
proof (induction ops arbitrary: s)
  case Nil
  then show ?case by simp
next
  case (Cons a ops)
  have step: "prefix (messages s) (messages (apply_op a s))"
    using Cons.prems by (simp add: apply_op_prefix)
  have rest: "\<forall>g \<in> set (run ops (apply_op a s)). prefix (messages (apply_op a s)) (messages g)"
    using Cons.prems by (intro Cons.IH) simp
  show ?case
  proof
    fix g assume "g \<in> set (run (a # ops) s)"
    then consider "g = s" | "g \<in> set (run ops (apply_op a s))" by auto
    then show "prefix (messages s) (messages g)"
    proof cases
      case 1 then show ?thesis by simp
    next
      case 2
      with rest have "prefix (messages (apply_op a s)) (messages g)" by blast
      with step show ?thesis by (rule prefix_order.trans)
    qed
  qed
qed



lemma sendMessage_start_fields:
  "messages (sendMessage_start body atts env s) = messages s @ [userMessage body atts env]"
  "isTyping (sendMessage_start body atts env s)"
  by (simp_all add: sendMessage_start_def)


lemma sendMessage_finish_Rejected:
  "messages (sendMessage_finish c0 Rejected env g) = messages g"
  "\<not> isTyping (sendMessage_finish c0 Rejected env g)"
  "error (sendMessage_finish c0 Rejected env g) = Some ''Failed to send message. Please try again.''"
  by (simp_all add: sendMessage_finish_def)

lemma send_gap_Nil: "send_gap body atts env [] s = [sendMessage_start body atts env s]"
  by (simp add: send_gap_def)


lemma send_gap_prefix:
  assumes "\<forall>a \<in> set gap. \<not> replaces_messages a"
  shows "prefix (messages s @ [userMessage body atts env]) (messages (last (send_gap body atts env gap s)))"
  using run_prefix [OF assms, of "sendMessage_start body atts env s"]
    last_run_in [of gap "sendMessage_start body atts env s"]
  by (simp add: send_gap_def sendMessage_start_fields)


text \<open>
  Claim C4: for every chat state and input, if the call of the agent inside
  \<open>sendMessage\<close> throws, then afterwards the typing flag is false and the error field
  holds \<open>Failed to send message. Please try again.\<close>; the failure path leaves the
  message list as it finds it, so no assistant message is appended and the user
  message appended at the start remains (the list is the prior list followed by the
  user message when nothing ran in between).
\<close>

theorem sendMessage_failure:
  assumes bad: "agent (sendMessage_payload body atts s) = Rejected"
  shows "\<not> isTyping (sendMessage body atts agent env gap s)
     \<and> error (sendMessage body atts agent env gap s) = Some ''Failed to send message. Please try again.''
     \<and> messages (sendMessage body atts agent env gap s) = messages (last (send_gap body atts env gap s))
     \<and> messages (sendMessage body atts agent env [] s) = messages s @ [userMessage body atts env]
     \<and> ((\<forall>a \<in> set gap. \<not> replaces_messages a) \<longrightarrow>
          prefix (messages s @ [userMessage body atts env])
                 (messages (sendMessage body atts agent env gap s)))"
proof -
  let ?final = "sendMessage body atts agent env gap s"
  have fin: "?final = sendMessage_finish (conversationId s) Rejected env
                        (last (send_gap body atts env gap s))"
    by (simp add: sendMessage_def bad)
  have m: "messages ?final = messages (last (send_gap body atts env gap s))"
    by (simp add: fin sendMessage_finish_Rejected)
  have alone: "messages (sendMessage body atts agent env [] s) = messages s @ [userMessage body atts env]"
    by (simp add: sendMessage_def bad send_gap_Nil sendMessage_finish_Rejected sendMessage_start_fields)
  have pre: "(\<forall>a \<in> set gap. \<not> replaces_messages a) \<longrightarrow>
          prefix (messages s @ [userMessage body atts env]) (messages ?final)"
    unfolding m by (intro impI send_gap_prefix)
  show ?thesis
    using m alone pre by (simp add: fin sendMessage_finish_Rejected)
qed

lemma dropWhile_all: "(\<forall>c \<in> set (dropWhile P s). P c) \<longleftrightarrow> (\<forall>c \<in> set s. P c)"
  by (induction s) auto

lemma trim_empty_iff: "trim s = [] \<longleftrightarrow> (\<forall>c \<in> set s. is_space c)"
  by (simp add: trim_def dropWhile_all)

text \<open>
  Claim C10: for every chat state, the hook's \<open>sendMessage\<close> with a text that is empty
  or consists of white space only, while no attachment is pending, leaves the store
  exactly as it was: no message is appended, and typing flag, input text, pending
  attachments and error are unchanged.
\<close>

theorem useChat_sendMessage_blank:
  "\<forall>c \<in> set body. is_space c \<Longrightarrow> pendingAttachments s = [] \<Longrightarrow>
     useChat_sendMessage body agent env gap s = s"
  by (simp add: useChat_sendMessage_def trim_empty_iff)

text \<open>
  Claim C7: the message list is append-only. Every operation of the store other than
  \<open>clearMessages\<close> and \<open>newConversation\<close> leaves the existing list a prefix of the
  resulting list, so every message already appended keeps its position and all its
  fields, and none is deleted; those two operations replace the list by the empty
  list. The same holds along any sequence of operations without those two.
\<close>

theorem messages_append_only:
  "(\<not> replaces_messages a \<longrightarrow>
      prefix (messages s) (messages (apply_op a s)) \<and>
      (\<forall>i < length (messages s). messages (apply_op a s) ! i = messages s ! i))
   \<and> (replaces_messages a \<longrightarrow> messages (apply_op a s) = [])
   \<and> ((\<forall>b \<in> set ops. \<not> replaces_messages b) \<longrightarrow>
        (\<forall>g \<in> set (run ops s). prefix (messages s) (messages g)))"
proof (intro conjI impI)
  assume a: "\<not> replaces_messages a"
  then show p: "prefix (messages s) (messages (apply_op a s))"
    by (rule apply_op_prefix)
  then obtain zs where "messages (apply_op a s) = messages s @ zs"
    by (auto simp: prefix_def)
  then show "\<forall>i < length (messages s). messages (apply_op a s) ! i = messages s ! i"
    by (simp add: nth_append)
next
  assume "replaces_messages a"
  then show "messages (apply_op a s) = []" by (rule apply_op_replaces)
next
  assume "\<forall>b \<in> set ops. \<not> replaces_messages b"
  then show "\<forall>g \<in> set (run ops s). prefix (messages s) (messages g)"
    by (rule run_prefix)
qed



subsection \<open>The theorems of the chat store at concrete inputs\<close>

lemma Rep_half: "Rep_random_unit half = 1 / 2"
  by (simp add: half_def Abs_random_unit_inverse)




lemma failing_agent_rejects: "failing_agent (sendMessage_payload ''hello'' [] busy_chat) = Rejected"
  by (simp add: failing_agent_def)

text \<open>Sending \<open>hello\<close> with an agent that throws.\<close>

theorem sendMessage_failure_witness:
  "failing_agent (sendMessage_payload ''hello'' [] busy_chat) = Rejected
   \<and> \<not> isTyping (sendMessage ''hello'' [] failing_agent clock [] busy_chat)
   \<and> error (sendMessage ''hello'' [] failing_agent clock [] busy_chat) =
       Some ''Failed to send message. Please try again.''
   \<and> messages (sendMessage ''hello'' [] failing_agent clock [] busy_chat) =
       [earlier_message, userMessage ''hello'' [] clock]
   \<and> \<not> replaces_messages (SetInputText ''draft'')
   \<and> prefix [earlier_message, userMessage ''hello'' [] clock]
        (messages (sendMessage ''hello'' [] failing_agent clock [SetInputText ''draft''] busy_chat))"
proof -
  have m: "messages busy_chat = [earlier_message]" by (simp add: busy_chat_def)
  have keep: "\<forall>a \<in> set [SetInputText ''draft'']. \<not> replaces_messages a" by simp
  note alone = sendMessage_failure [where agent = failing_agent and body = "''hello''"
        and atts = "[]" and s = busy_chat and gap = "[]" and env = clock,
        OF failing_agent_rejects]
  note spec = sendMessage_failure [where agent = failing_agent and body = "''hello''"
        and atts = "[]" and s = busy_chat and gap = "[SetInputText ''draft'']" and env = clock,
        OF failing_agent_rejects]
  from spec keep have pre: "prefix [earlier_message, userMessage ''hello'' [] clock]
        (messages (sendMessage ''hello'' [] failing_agent clock [SetInputText ''draft''] busy_chat))"
    by (auto simp: m)
  from alone have "\<not> isTyping (sendMessage ''hello'' [] failing_agent clock [] busy_chat)"
    and "error (sendMessage ''hello'' [] failing_agent clock [] busy_chat) =
       Some ''Failed to send message. Please try again.''"
    and "messages (sendMessage ''hello'' [] failing_agent clock [] busy_chat) =
       [earlier_message, userMessage ''hello'' [] clock]"
    by (auto simp: m)
  with pre failing_agent_rejects show ?thesis by simp
qed

text \<open>The hook on two spaces, a line feed and a space, with no pending attachment.\<close>

theorem useChat_sendMessage_blank_witness:
  "list_all is_space ''  \<newline> '' \<and> pendingAttachments busy_chat = []
   \<and> useChat_sendMessage ''  \<newline> '' (sendToAIAgent half) clock [] busy_chat = busy_chat"
proof -
  have sp: "\<forall>c \<in> set ''  \<newline> ''. is_space c" by (simp add: is_space_def)
  have pa: "pendingAttachments busy_chat = []" by (simp add: busy_chat_def)
  show ?thesis
    using useChat_sendMessage_blank [OF sp pa, of "sendToAIAgent half" clock "[]"] sp pa
    by (simp add: list_all_iff)
qed

text \<open>
  \<open>addMessage\<close> extends the list, \<open>clearMessages\<close> empties it, and clearing the error
  and removing an attachment leave it alone.
\<close>

theorem messages_append_only_witness:
  "\<not> replaces_messages (AddMessage earlier_message)
   \<and> prefix (messages busy_chat) (messages (apply_op (AddMessage earlier_message) busy_chat))
   \<and> replaces_messages ClearMessages
   \<and> messages (apply_op ClearMessages busy_chat) = []
   \<and> list_all (\<lambda>b. \<not> replaces_messages b) [SetError None, RemoveAttachment ''att_1'']
   \<and> list_all (\<lambda>g. prefix (messages busy_chat) (messages g))
        (run [SetError None, RemoveAttachment ''att_1''] busy_chat)"
  using messages_append_only [of "AddMessage earlier_message" busy_chat "[SetError None, RemoveAttachment ''att_1'']"]
    messages_append_only [of ClearMessages busy_chat "[]"]
  by (simp add: list_all_iff)



section \<open>Properties of the canned responses\<close>


lemma toLowerCase_char_other: "c \<notin> set upper_letters \<Longrightarrow> toLowerCase_char c = c"
proof -
  assume "c \<notin> set upper_letters"
  then have "map_of (zip upper_letters lower_letters) c = None"
    by (simp add: map_of_eq_None_iff upper_letters_def lower_letters_def)
  then show ?thesis by (simp add: toLowerCase_char_def)
qed

lemma canonicalize_other: "c \<notin> set lower_letters \<Longrightarrow> canonicalize c = c"
proof -
  assume "c \<notin> set lower_letters"
  then have "map_of (zip lower_letters upper_letters) c = None"
    by (simp add: map_of_eq_None_iff upper_letters_def lower_letters_def)
  then show ?thesis by (simp add: canonicalize_def)
qed

lemma upper_table:
  "list_all (\<lambda>c. toLowerCase_char c \<notin> set upper_letters) upper_letters"
  by code_simp

lemma lower_table:
  "list_all (\<lambda>p. toLowerCase_char (canonicalize p) = p \<and> canonicalize p \<in> set upper_letters
               \<and> p \<notin> set upper_letters) lower_letters"
  by code_simp

lemma toLowerCase_char_not_upper: "toLowerCase_char c \<notin> set upper_letters"
proof (cases "c \<in> set upper_letters")
  case True
  with upper_table show ?thesis by (simp add: list_all_iff)
next
  case False
  then show ?thesis by (simp add: toLowerCase_char_other)
qed

lemma canonicalize_eq_iff:
  assumes p: "p \<in> set lower_letters" and c: "c \<notin> set upper_letters"
  shows "canonicalize p = canonicalize c \<longleftrightarrow> p = c"
proof
  assume eq: "canonicalize p = canonicalize c"
  from p lower_table have inv: "toLowerCase_char (canonicalize p) = p"
    and up: "canonicalize p \<in> set upper_letters"
    by (simp_all add: list_all_iff)
  show "p = c"
  proof (cases "c \<in> set lower_letters")
    case True
    with lower_table have "toLowerCase_char (canonicalize c) = c" by (simp add: list_all_iff)
    with inv eq show ?thesis by simp
  next
    case False
    then have "canonicalize c = c" by (rule canonicalize_other)
    with eq up c show ?thesis by simp
  qed
qed simp



lemma starts_ci_prefix:
  "set p \<subseteq> set lower_letters \<Longrightarrow> set s \<inter> set upper_letters = {} \<Longrightarrow>
     starts_ci p s \<longleftrightarrow> prefix p s"
proof (induction p s rule: starts_ci.induct)
  case (1 s)
  then show ?case by simp
next
  case (2 p ps)
  then show ?case by simp
next
  case (3 p ps c cs)
  have "canonicalize p = canonicalize c \<longleftrightarrow> p = c"
    using "3.prems" by (intro canonicalize_eq_iff) auto
  moreover have "starts_ci ps cs \<longleftrightarrow> prefix ps cs"
    using "3.prems" by (intro "3.IH") auto
  ultimately show ?case by auto
qed

lemma starts_ci_Nil_right: "starts_ci p [] \<longleftrightarrow> p = []"
  by (cases p) simp_all

lemma includes_ci_sublist:
  "set p \<subseteq> set lower_letters \<Longrightarrow> set s \<inter> set upper_letters = {} \<Longrightarrow>
     includes_ci p s \<longleftrightarrow> sublist p s"
proof (induction s)
  case Nil
  then show ?case by (simp add: starts_ci_Nil_right)
next
  case (Cons c cs)
  have "starts_ci p (c # cs) \<longleftrightarrow> prefix p (c # cs)"
    using Cons.prems by (rule starts_ci_prefix)
  moreover have "includes_ci p cs \<longleftrightarrow> sublist p cs"
    using Cons.prems by (intro Cons.IH) auto
  ultimately show ?case by (simp add: sublist_Cons_right)
qed

lemma toLowerCase_no_upper: "set (toLowerCase s) \<inter> set upper_letters = {}"
  by (auto simp: toLowerCase_def toLowerCase_char_not_upper)

lemma drop_no_upper:
  "set s \<inter> set upper_letters = {} \<Longrightarrow> set (dropWhile P (drop n s)) \<inter> set upper_letters = {}"
  by (meson disjoint_iff in_set_dropD set_dropWhileD)

lemma pattern_letters:
  "set ''hi'' \<subseteq> set lower_letters" "set ''hello'' \<subseteq> set lower_letters"
  "set ''hey'' \<subseteq> set lower_letters" "set ''greetings'' \<subseteq> set lower_letters"
  "set ''good'' \<subseteq> set lower_letters" "set ''morning'' \<subseteq> set lower_letters"
  "set ''afternoon'' \<subseteq> set lower_letters" "set ''evening'' \<subseteq> set lower_letters"
  "set ''code'' \<subseteq> set lower_letters" "set ''function'' \<subseteq> set lower_letters"
  "set ''programming'' \<subseteq> set lower_letters" "set ''javascript'' \<subseteq> set lower_letters"
  "set ''python'' \<subseteq> set lower_letters" "set ''react'' \<subseteq> set lower_letters"
  "set ''api'' \<subseteq> set lower_letters"
  by (simp_all add: lower_letters_def)

lemma code_test_iff:
  assumes "set m \<inter> set upper_letters = {}"
  shows "code_test m \<longleftrightarrow> has_code_keyword m"
  by (simp add: code_test_def has_code_keyword_def code_keywords_def
      pattern_letters [THEN includes_ci_sublist, OF assms])

text \<open>After \<open>good\<close>: skipping the white space and reading a word, against a prefix.\<close>

lemma skip_space_prefix:
  assumes w: "w \<noteq> []" "\<not> is_space (hd w)"
  shows "prefix w (dropWhile is_space t) \<longleftrightarrow>
         (\<exists>ws. (\<forall>c \<in> set ws. is_space c) \<and> prefix (ws @ w) t)"
proof
  assume "prefix w (dropWhile is_space t)"
  then obtain r where d: "dropWhile is_space t = w @ r" by (auto simp: prefix_def)
  have "prefix (takeWhile is_space t @ w) ((takeWhile is_space t @ w) @ r)"
    by (rule prefixI [OF refl])
  also have "(takeWhile is_space t @ w) @ r = takeWhile is_space t @ dropWhile is_space t"
    by (simp only: d append_assoc)
  also have "\<dots> = t" by (rule takeWhile_dropWhile_id)
  finally have "prefix (takeWhile is_space t @ w) t" .
  moreover have "\<forall>c \<in> set (takeWhile is_space t). is_space c"
    by (auto dest: set_takeWhileD)
  ultimately show "\<exists>ws. (\<forall>c \<in> set ws. is_space c) \<and> prefix (ws @ w) t" by blast
next
  assume "\<exists>ws. (\<forall>c \<in> set ws. is_space c) \<and> prefix (ws @ w) t"
  then obtain ws r where ws: "\<forall>c \<in> set ws. is_space c" and t: "t = (ws @ w) @ r"
    by (auto simp: prefix_def)
  from w obtain x xs where x: "w = x # xs" "\<not> is_space x" by (cases w) auto
  have "dropWhile is_space t = dropWhile is_space (w @ r)"
    using ws by (simp add: t)
  also have "\<dots> = w @ r" using x by simp
  finally show "prefix w (dropWhile is_space t)" by simp
qed

lemma prefix_good:
  "prefix (''good'' @ u) m \<longleftrightarrow> prefix ''good'' m \<and> prefix u (drop 4 m)"
proof
  assume "prefix (''good'' @ u) m"
  then obtain r where "m = (''good'' @ u) @ r" by (auto simp: prefix_def)
  then show "prefix ''good'' m \<and> prefix u (drop 4 m)" by simp
next
  assume a: "prefix ''good'' m \<and> prefix u (drop 4 m)"
  then obtain r where m: "m = ''good'' @ r" by (auto simp: prefix_def)
  with a have "prefix u r" by simp
  then show "prefix (''good'' @ u) m" by (simp add: m)
qed

lemma day_part_not_space:
  "w \<in> set day_parts \<Longrightarrow> w \<noteq> [] \<and> \<not> is_space (hd w)"
  by (auto simp: day_parts_def is_space_def)

lemma greeting_test_iff:
  assumes m: "set m \<inter> set upper_letters = {}"
  shows "greeting_test m \<longleftrightarrow> starts_with_greeting m"
proof -
  let ?rest = "dropWhile is_space (drop 4 m)"
  have r: "set ?rest \<inter> set upper_letters = {}" using m by (rule drop_no_upper)
  have words: "(starts_ci ''hi'' m \<or> starts_ci ''hello'' m \<or> starts_ci ''hey'' m \<or>
        starts_ci ''greetings'' m) \<longleftrightarrow> (\<exists>g \<in> set greeting_words. prefix g m)"
    by (simp add: greeting_words_def pattern_letters [THEN starts_ci_prefix, OF m])
  have day: "(starts_ci ''morning'' ?rest \<or> starts_ci ''afternoon'' ?rest \<or>
        starts_ci ''evening'' ?rest) \<longleftrightarrow> (\<exists>w \<in> set day_parts. prefix w ?rest)"
    by (simp add: day_parts_def pattern_letters [THEN starts_ci_prefix, OF r])
  have good: "starts_ci ''good'' m \<longleftrightarrow> prefix ''good'' m"
    by (simp add: pattern_letters [THEN starts_ci_prefix, OF m])
  have key: "(prefix ''good'' m \<and> (\<exists>w \<in> set day_parts. prefix w ?rest)) \<longleftrightarrow>
        (\<exists>ws. (\<forall>c \<in> set ws. is_space c) \<and> (\<exists>w \<in> set day_parts. prefix (''good'' @ ws @ w) m))"
    (is "?L \<longleftrightarrow> ?R")
  proof
    assume ?L
    then obtain w where w: "w \<in> set day_parts" "prefix w ?rest" and g: "prefix ''good'' m" by blast
    from w obtain ws where "\<forall>c \<in> set ws. is_space c" "prefix (ws @ w) (drop 4 m)"
      using skip_space_prefix [of w "drop 4 m"] day_part_not_space [of w] by blast
    with g w(1) show ?R using prefix_good [of "ws @ w" m] by blast
  next
    assume ?R
    then obtain ws w where ws: "\<forall>c \<in> set ws. is_space c" and w: "w \<in> set day_parts"
      and p: "prefix (''good'' @ ws @ w) m" by blast
    from p have g: "prefix ''good'' m" and q: "prefix (ws @ w) (drop 4 m)"
      using prefix_good [of "ws @ w" m] by blast+
    from ws q w have "prefix w ?rest"
      using skip_space_prefix [of w "drop 4 m"] day_part_not_space [of w] by blast
    with g w show ?L by blast
  qed
  have "greeting_test m \<longleftrightarrow>
        (starts_ci ''hi'' m \<or> starts_ci ''hello'' m \<or> starts_ci ''hey'' m \<or>
         starts_ci ''greetings'' m) \<or>
        (starts_ci ''good'' m \<and>
          (starts_ci ''morning'' ?rest \<or> starts_ci ''afternoon'' ?rest \<or>
           starts_ci ''evening'' ?rest))"
    unfolding greeting_test_def Let_def by (simp only: disj_assoc)
  also have "\<dots> \<longleftrightarrow> (\<exists>g \<in> set greeting_words. prefix g m) \<or>
        (prefix ''good'' m \<and> (\<exists>w \<in> set day_parts. prefix w ?rest))"
    by (simp only: words day good)
  also have "\<dots> \<longleftrightarrow> starts_with_greeting m"
    unfolding starts_with_greeting_def by (simp only: key)
  finally show ?thesis .
qed



lemma Rep_random_unit_bounds: "0 \<le> Rep_random_unit r" "Rep_random_unit r < 1"
  using Rep_random_unit [of r] by simp_all

lemma random_index_eq_iff:
  assumes n: "0 < n"
  shows "random_index n r = i \<longleftrightarrow>
         real i / real n \<le> Rep_random_unit r \<and> Rep_random_unit r < (real i + 1) / real n"
proof -
  let ?x = "Rep_random_unit r * real n"
  have nonneg: "0 \<le> ?x" using Rep_random_unit_bounds(1) by simp
  then have "0 \<le> \<lfloor>?x\<rfloor>" by simp
  then have "nat \<lfloor>?x\<rfloor> = i \<longleftrightarrow> \<lfloor>?x\<rfloor> = int i" by linarith
  also have "\<dots> \<longleftrightarrow> real i \<le> ?x \<and> ?x < real i + 1"
    by (simp add: floor_eq_iff)
  also have "\<dots> \<longleftrightarrow> real i / real n \<le> Rep_random_unit r \<and> Rep_random_unit r < (real i + 1) / real n"
    using n by (simp add: pos_divide_le_eq pos_less_divide_eq)
  finally show ?thesis by (simp add: random_index_def)
qed

lemma random_index_less: "0 < n \<Longrightarrow> random_index n r < n"
proof -
  assume n: "0 < n"
  have "real (random_index n r) / real n \<le> Rep_random_unit r"
    using random_index_eq_iff [OF n, of r "random_index n r"] by simp
  also have "\<dots> < 1" by (rule Rep_random_unit_bounds)
  finally show ?thesis using n by simp
qed

lemma getRandomResponse_defined:
  "responses \<noteq> [] \<Longrightarrow>
     getRandomResponse responses r = Some (responses ! random_index (length responses) r)"
  by (simp add: getRandomResponse_def random_index_less)

lemma pools_nonempty:
  "mockResponses_greeting \<noteq> []" "mockResponses_image \<noteq> []" "mockResponses_file \<noteq> []"
  "mockResponses_code \<noteq> []" "mockResponses_default \<noteq> []"
  by (simp_all add: mockResponses_greeting_def mockResponses_image_def mockResponses_file_def
      mockResponses_code_def mockResponses_default_def)

lemma pools_distinct:
  "distinct mockResponses_greeting" "distinct mockResponses_image" "distinct mockResponses_file"
  "distinct mockResponses_code" "distinct mockResponses_default"
  by (simp_all add: mockResponses_greeting_def mockResponses_image_def mockResponses_file_def
      mockResponses_code_def mockResponses_default_def)

lemma responses_for_simps:
  "responses_for ''greeting'' = mockResponses_greeting"
  "responses_for ''image'' = mockResponses_image"
  "responses_for ''file'' = mockResponses_file"
  "responses_for ''code'' = mockResponses_code"
  "responses_for ''default'' = mockResponses_default"
  by (simp_all add: responses_for_def mockResponses_def)

lemma map_of_mockResponses:
  "c \<in> {''greeting'', ''code'', ''image'', ''file'', ''default''} \<Longrightarrow>
     map_of mockResponses c = Some (responses_for c)"
  by (auto simp: responses_for_def mockResponses_def)

lemma category_cases:
  "getResponseCategory payload \<in> {''greeting'', ''code'', ''image'', ''file'', ''default''}"
  by (simp add: getResponseCategory_def Let_def split: option.splits list.splits)

lemma responses_for_category:
  "responses_for (getResponseCategory payload) \<noteq> [] \<and>
   distinct (responses_for (getResponseCategory payload))"
  using category_cases [of payload]
  by (auto simp: responses_for_simps pools_nonempty pools_distinct)



lemma category_iff:
  fixes payload
  defines "m \<equiv> toLowerCase (p_message payload)"
  shows "(getResponseCategory payload = ''greeting'' \<longleftrightarrow> starts_with_greeting m)"
    "(getResponseCategory payload = ''code'' \<longleftrightarrow> \<not> starts_with_greeting m \<and> has_code_keyword m)"
    "(getResponseCategory payload = ''image'' \<longleftrightarrow>
        \<not> starts_with_greeting m \<and> \<not> has_code_keyword m \<and>
        (\<exists>a rest. p_attachments payload = Some (a # rest) \<and> prefix ''image/'' (att_type a)))"
    "(getResponseCategory payload = ''file'' \<longleftrightarrow>
        \<not> starts_with_greeting m \<and> \<not> has_code_keyword m \<and>
        (\<exists>a rest. p_attachments payload = Some (a # rest) \<and> \<not> prefix ''image/'' (att_type a)))"
    "(getResponseCategory payload = ''default'' \<longleftrightarrow>
        \<not> starts_with_greeting m \<and> \<not> has_code_keyword m \<and>
        (p_attachments payload = None \<or> p_attachments payload = Some []))"
proof -
  have nu: "set m \<inter> set upper_letters = {}"
    unfolding m_def by (rule toLowerCase_no_upper)
  have g: "greeting_test m \<longleftrightarrow> starts_with_greeting m" using nu by (rule greeting_test_iff)
  have c: "code_test m \<longleftrightarrow> has_code_keyword m" using nu by (rule code_test_iff)
  have cat: "getResponseCategory payload =
     (if starts_with_greeting m then ''greeting''
      else if has_code_keyword m then ''code''
      else (case p_attachments payload of
              Some (firstAttachment # _) \<Rightarrow>
                if prefix ''image/'' (att_type firstAttachment) then ''image'' else ''file''
            | _ \<Rightarrow> ''default''))"
    by (simp add: getResponseCategory_def Let_def m_def [symmetric] g c)
  show "(getResponseCategory payload = ''greeting'' \<longleftrightarrow> starts_with_greeting m)"
    by (simp add: cat split: option.splits list.splits)
  show "(getResponseCategory payload = ''code'' \<longleftrightarrow> \<not> starts_with_greeting m \<and> has_code_keyword m)"
    by (simp add: cat split: option.splits list.splits)
  show "(getResponseCategory payload = ''image'' \<longleftrightarrow>
        \<not> starts_with_greeting m \<and> \<not> has_code_keyword m \<and>
        (\<exists>a rest. p_attachments payload = Some (a # rest) \<and> prefix ''image/'' (att_type a)))"
    by (simp add: cat split: option.splits list.splits)
  show "(getResponseCategory payload = ''file'' \<longleftrightarrow>
        \<not> starts_with_greeting m \<and> \<not> has_code_keyword m \<and>
        (\<exists>a rest. p_attachments payload = Some (a # rest) \<and> \<not> prefix ''image/'' (att_type a)))"
    by (simp add: cat split: option.splits list.splits)
  show "(getResponseCategory payload = ''default'' \<longleftrightarrow>
        \<not> starts_with_greeting m \<and> \<not> has_code_keyword m \<and>
        (p_attachments payload = None \<or> p_attachments payload = Some []))"
    by (simp add: cat split: option.splits list.splits)
qed

lemma sendToAIAgent_content:
  "sendToAIAgent r payload =
     Resolved \<lparr>r_type = TextContent,
       r_content = responses_for (getResponseCategory payload) !
                     random_index (length (responses_for (getResponseCategory payload))) r,
       r_attachments = None, r_error = None\<rparr>"
  using responses_for_category [of payload]
  by (simp add: sendToAIAgent_def Let_def getRandomResponse_defined)

text \<open>
  Claim C6: for every payload, the category is \<open>greeting\<close> when the lower-cased
  message starts with a greeting pattern; otherwise \<open>code\<close> when it contains a code
  keyword; otherwise \<open>image\<close> when an attachment is present and the MIME type of the
  first one starts with \<open>image/\<close>; otherwise \<open>file\<close> when an attachment is present;
  and \<open>default\<close> in all remaining cases. The content returned is an element of the
  fixed pool that the table holds for the selected category, the one at the index
  drawn from \<open>Math.random()\<close>. The elements of a pool are pairwise distinct, and the
  values of \<open>Math.random()\<close> that select the element at index \<open>i\<close> of a pool of \<open>n\<close>
  elements are those of the interval from \<open>i / n\<close> to \<open>(i + 1) / n\<close>, of the same
  length \<open>1 / n\<close> for every element: under a uniform \<open>Math.random()\<close> each element is
  chosen with equal probability.
\<close>

theorem canned_response_spec:
  "(getResponseCategory payload = ''greeting'' \<longleftrightarrow>
      starts_with_greeting (toLowerCase (p_message payload)))
   \<and> (getResponseCategory payload = ''code'' \<longleftrightarrow>
        \<not> starts_with_greeting (toLowerCase (p_message payload)) \<and>
        has_code_keyword (toLowerCase (p_message payload)))
   \<and> (getResponseCategory payload = ''image'' \<longleftrightarrow>
        \<not> starts_with_greeting (toLowerCase (p_message payload)) \<and>
        \<not> has_code_keyword (toLowerCase (p_message payload)) \<and>
        (\<exists>a rest. p_attachments payload = Some (a # rest) \<and> prefix ''image/'' (att_type a)))
   \<and> (getResponseCategory payload = ''file'' \<longleftrightarrow>
        \<not> starts_with_greeting (toLowerCase (p_message payload)) \<and>
        \<not> has_code_keyword (toLowerCase (p_message payload)) \<and>
        (\<exists>a rest. p_attachments payload = Some (a # rest) \<and> \<not> prefix ''image/'' (att_type a)))
   \<and> (getResponseCategory payload = ''default'' \<longleftrightarrow>
        \<not> starts_with_greeting (toLowerCase (p_message payload)) \<and>
        \<not> has_code_keyword (toLowerCase (p_message payload)) \<and>
        (p_attachments payload = None \<or> p_attachments payload = Some []))
   \<and> map_of mockResponses (getResponseCategory payload) =
        Some (responses_for (getResponseCategory payload))
   \<and> (\<exists>response. sendToAIAgent r payload = Resolved response \<and>
        r_content response \<in> set (responses_for (getResponseCategory payload)) \<and>
        r_content response =
          responses_for (getResponseCategory payload) !
            random_index (length (responses_for (getResponseCategory payload))) r)
   \<and> distinct (responses_for (getResponseCategory payload))
   \<and> (\<forall>i < length (responses_for (getResponseCategory payload)).
        {q. random_index (length (responses_for (getResponseCategory payload))) q = i} =
        {q. real i / real (length (responses_for (getResponseCategory payload))) \<le> Rep_random_unit q \<and>
            Rep_random_unit q < (real i + 1) / real (length (responses_for (getResponseCategory payload)))})"
proof -
  let ?pool = "responses_for (getResponseCategory payload)"
  have ne: "?pool \<noteq> []" and di: "distinct ?pool"
    using responses_for_category [of payload] by simp_all
  have table: "map_of mockResponses (getResponseCategory payload) = Some ?pool"
    using category_cases [of payload] by (rule map_of_mockResponses)
  have idx: "random_index (length ?pool) r < length ?pool"
    using ne by (simp add: random_index_less)
  have content: "\<exists>response. sendToAIAgent r payload = Resolved response \<and>
        r_content response \<in> set ?pool \<and>
        r_content response = ?pool ! random_index (length ?pool) r"
    using idx by (simp add: sendToAIAgent_content)
  have uniform: "\<forall>i < length ?pool.
        {q. random_index (length ?pool) q = i} =
        {q. real i / real (length ?pool) \<le> Rep_random_unit q \<and>
            Rep_random_unit q < (real i + 1) / real (length ?pool)}"
    using ne by (simp add: random_index_eq_iff)
  from category_iff [of payload] table content di uniform
  show ?thesis by (intro conjI)
qed

text \<open>
  The message \<open>Hello there\<close> without attachment, when \<open>Math.random()\<close> gives one half:
  a greeting, answered by the second of the three greeting responses.
\<close>

lemma hello_payload_category: "getResponseCategory hello_payload = ''greeting''"
  by (simp add: hello_payload_def getResponseCategory_def toLowerCase_def toLowerCase_char_def
      upper_letters_def lower_letters_def greeting_test_def canonicalize_def)

theorem canned_response_spec_witness:
  "getResponseCategory hello_payload = ''greeting''
   \<and> starts_with_greeting (toLowerCase (p_message hello_payload))
   \<and> sendToAIAgent half hello_payload = Resolved hello_reply
   \<and> r_content hello_reply \<in> set mockResponses_greeting
   \<and> length mockResponses_greeting = 3
   \<and> {q. random_index 3 q = 1} = {q. 1 / 3 \<le> Rep_random_unit q \<and> Rep_random_unit q < 2 / 3}"
proof -
  note spec = canned_response_spec [of hello_payload half]
  have pool: "responses_for (getResponseCategory hello_payload) = mockResponses_greeting"
    by (simp add: hello_payload_category responses_for_simps)
  have len: "length mockResponses_greeting = 3"
    by (simp add: mockResponses_greeting_def)
  from spec have g: "starts_with_greeting (toLowerCase (p_message hello_payload))"
    using hello_payload_category by simp
  have resp: "sendToAIAgent half hello_payload = Resolved hello_reply"
    by (simp add: sendToAIAgent_content pool hello_reply_def mockResponses_greeting_def
        random_index_def Rep_half)
  have mem: "r_content hello_reply \<in> set mockResponses_greeting"
    by (simp add: hello_reply_def mockResponses_greeting_def)
  from spec have u: "\<forall>i<3. {q. random_index 3 q = i} =
        {q. real i / real (3::nat) \<le> Rep_random_unit q \<and> Rep_random_unit q < (real i + 1) / real (3::nat)}"
    unfolding pool len by blast
  have "{q. random_index 3 q = 1} = {q. 1 / 3 \<le> Rep_random_unit q \<and> Rep_random_unit q < 2 / 3}"
    using u [rule_format, of 1] by simp
  with g resp mem len hello_payload_category show ?thesis by simp
qed

section \<open>Properties of the voice recorder\<close>




lemma cancelRecording_refs:
  "chunksRef (cancelRecording w) = []"
  "mediaRecorderRef (cancelRecording w) = None"
  "streamRef (cancelRecording w) = None"
  "timerRef (cancelRecording w) = None"
  "isRecording (cancelRecording w) = False"
  "recordingDuration (cancelRecording w) = 0"
  by (simp_all add: cancelRecording_def Let_def clearInterval_def MediaRecorder_stop_def
      stop_tracks_def split: option.splits)

lemma stopRecording_no_recorder:
  "mediaRecorderRef w = None \<Longrightarrow> stopRecording w = (Some None, w)"
  by (simp add: stopRecording_def)

lemma cancelRecording_streams:
  "streamRef w = Some sid \<Longrightarrow> streams w sid = Some ts \<Longrightarrow>
     streams (cancelRecording w) sid = Some (map (\<lambda>t. Ended) ts)"
  by (simp add: cancelRecording_def Let_def clearInterval_def MediaRecorder_stop_def
      stop_tracks_def split: option.splits)

lemma cancelRecording_recorder:
  "mediaRecorderRef w = Some rid \<Longrightarrow> recorders w rid = Some r \<Longrightarrow>
     map_option rec_state (recorders (cancelRecording w) rid) = Some Inactive"
  by (simp add: cancelRecording_def Let_def clearInterval_def MediaRecorder_stop_def
      stop_tracks_def split: option.splits)

lemma cancelRecording_timer:
  "timerRef w = Some tid \<Longrightarrow> tick tid (cancelRecording w) = None"
  by (simp add: cancelRecording_def Let_def clearInterval_def MediaRecorder_stop_def
      stop_tracks_def tick_def split: option.splits)

lemma cancelRecording_sole_recording:
  assumes "sole_recording w rid sid tid"
  shows "cancelRecording w =
     w\<lparr>intervals := {}, timerRef := None,
       recorders := (recorders w)(rid \<mapsto>
          \<lparr>rec_state = Inactive, rec_stream = sid, ondataavailable = True, onstop = False,
           final_pending = True\<rparr>),
       streams := (streams w)(sid \<mapsto> map (\<lambda>t. Ended) (the (streams w sid))),
       streamRef := None, mediaRecorderRef := None, chunksRef := [], isRecording := False,
       recordingDuration := 0\<rparr>"
  using assms
  by (auto simp: sole_recording_def cancelRecording_def clearInterval_def MediaRecorder_stop_def
      stop_tracks_def Let_def)

lemma startRecording_sole_recording:
  assumes "at_rest w"
  shows "sole_recording (startRecording (Resolved ts) True sid rid tid w) rid sid tid"
  using assms
  by (auto simp: at_rest_def sole_recording_def startRecording_def Let_def)

lemma sole_recording_cancelled:
  assumes "sole_recording w rid sid tid"
  shows "cancelled (cancelRecording w) rid"
  using assms
  unfolding cancelRecording_sole_recording [OF assms]
  by (auto simp: sole_recording_def cancelled_def)


text \<open>One event from a cancelled state: no blob, again a cancelled state.\<close>

lemma cancelled_data:
  assumes c: "cancelled w rid" and f: "deliver_data i b w = Some (res, w')"
  shows "res = None \<and> cancelled w' rid \<and> streams w' = streams w \<and> i = rid \<and>
         set (chunksRef w') \<subseteq> {b}"
proof -
  from f obtain r where r: "recorders w i = Some r"
    by (auto simp: deliver_data_def split: option.splits)
  from c r have inact: "rec_state r = Inactive"
    and pend: "final_pending r \<longrightarrow> i = rid \<and> \<not> onstop r \<and> chunksRef w = []"
    by (auto simp: cancelled_def)
  from f r inact have fp: "final_pending r"
    by (auto simp: deliver_data_def Let_def split: if_splits)
  with pend have i: "i = rid" and no: "\<not> onstop r" and e: "chunksRef w = []" by simp_all
  from f r inact fp no have w': "w' = (if ondataavailable r then ondataavailable_handler b w else w)
        \<lparr>recorders := (recorders w)(i \<mapsto> r\<lparr>final_pending := False\<rparr>)\<rparr>" and res: "res = None"
    by (auto simp: deliver_data_def Let_def ondataavailable_handler_def split: if_splits)
  have "cancelled w' rid"
    using c e inact i
    by (auto simp: w' cancelled_def ondataavailable_handler_def)
  moreover have "streams w' = streams w"
    by (simp add: w' ondataavailable_handler_def)
  moreover have "set (chunksRef w') \<subseteq> {b}"
    using e by (simp add: w' ondataavailable_handler_def)
  ultimately show ?thesis using res i by simp
qed

lemma cancelled_cancel:
  assumes c: "cancelled w rid"
  shows "cancelRecording w = w\<lparr>chunksRef := []\<rparr>"
  using c
  by (simp add: cancelled_def cancelRecording_def Let_def)

lemma cancelled_fire:
  assumes c: "cancelled w rid" and f: "fire e w = Some (res, w')"
  shows "res = None \<and> cancelled w' rid \<and> streams w' = streams w \<and>
         set (chunksRef w') \<subseteq> set (chunksRef w) \<union> {b. e = DataEvent rid b}"
proof (cases e)
  case (DataEvent i b)
  with f have "deliver_data i b w = Some (res, w')" by simp
  from cancelled_data [OF c this] show ?thesis using DataEvent by auto
next
  case (TickEvent t)
  with c f show ?thesis by (simp add: tick_def cancelled_def)
next
  case StopCall
  from c have "mediaRecorderRef w = None" by (simp add: cancelled_def)
  then have "stopRecording w = (Some None, w)" by (rule stopRecording_no_recorder)
  with StopCall f c show ?thesis by auto
next
  case CancelCall
  with f have "w' = w\<lparr>chunksRef := []\<rparr>" and "res = None"
    by (simp_all add: cancelled_cancel [OF c])
  with c show ?thesis by (auto simp: cancelled_def)
qed

lemma cancelled_after_events:
  "cancelled w rid \<Longrightarrow>
     fst (after_events es w) = [] \<and> cancelled (snd (after_events es w)) rid \<and>
     streams (snd (after_events es w)) = streams w \<and>
     set (chunksRef (snd (after_events es w))) \<subseteq> set (chunksRef w) \<union> {b. DataEvent rid b \<in> set es}"
proof (induction es arbitrary: w)
  case Nil
  then show ?case by simp
next
  case (Cons e es)
  show ?case
  proof (cases "fire e w")
    case None
    with Cons.IH [OF Cons.prems] show ?thesis by auto
  next
    case (Some p)
    obtain res w' where p: "p = (res, w')" by (cases p)
    from cancelled_fire [OF Cons.prems Some [unfolded p]]
    have res: "res = None" and c': "cancelled w' rid" and st: "streams w' = streams w"
      and ch: "set (chunksRef w') \<subseteq> set (chunksRef w) \<union> {b. e = DataEvent rid b}"
      by simp_all
    from Cons.IH [OF c']
    have "fst (after_events es w') = []" and "cancelled (snd (after_events es w')) rid"
      and "streams (snd (after_events es w')) = streams w'"
      and "set (chunksRef (snd (after_events es w'))) \<subseteq>
             set (chunksRef w') \<union> {b. DataEvent rid b \<in> set es}"
      by simp_all
    with res st ch Some p show ?thesis by auto
  qed
qed


lemma deliver_data_other:
  assumes "sole_recording w rid sid tid" and "other \<noteq> rid"
  shows "deliver_data other b (cancelRecording w) = None"
proof (cases "recorders w other")
  case None
  with assms show ?thesis
    by (simp add: cancelRecording_sole_recording [OF assms(1)] deliver_data_def)
next
  case (Some r)
  with assms have "rec_state r = Inactive \<and> \<not> final_pending r"
    by (auto simp: sole_recording_def)
  with Some assms(2) show ?thesis
    by (simp add: cancelRecording_sole_recording [OF assms(1)] deliver_data_def Let_def)
qed

text \<open>The state after the last event of the cancelled recorder.\<close>

lemma deliver_data_final:
  assumes "sole_recording w rid sid tid"
  shows "deliver_data rid b (cancelRecording w) =
     Some (None, (ondataavailable_handler b (cancelRecording w))
        \<lparr>recorders := (recorders (cancelRecording w))(rid \<mapsto>
          \<lparr>rec_state = Inactive, rec_stream = sid, ondataavailable = True, onstop = False,
           final_pending = False\<rparr>)\<rparr>)"
  by (simp add: cancelRecording_sole_recording [OF assms] deliver_data_def Let_def
      ondataavailable_handler_def)

lemma after_final_quiet:
  assumes "sole_recording w rid sid tid"
    and "deliver_data rid b (cancelRecording w) = Some (res, w')"
  shows "deliver_data i b' w' = None"
proof (cases "i = rid")
  case True
  with assms show ?thesis
    by (auto simp: deliver_data_final [OF assms(1)] cancelRecording_sole_recording [OF assms(1)]
        deliver_data_def Let_def ondataavailable_handler_def)
next
  case False
  have "deliver_data i b' (cancelRecording w) = None"
    using assms(1) False by (rule deliver_data_other)
  moreover have "recorders w' i = recorders (cancelRecording w) i"
    using assms False
    by (auto simp: deliver_data_final [OF assms(1)] ondataavailable_handler_def)
  ultimately show ?thesis
    by (auto simp: deliver_data_def Let_def split: option.splits if_splits)
qed


text \<open>
  Claim C8, as the code has it. In every state of the recorder, after
  \<open>cancelRecording\<close> the chunk list is empty, the recorder, stream and timer
  references are cleared, the recording flag is false, the duration counter is zero
  and \<open>stopRecording\<close> resolves with \<open>null\<close>; every track of the stream that was
  referenced is stopped, the recorder that was referenced is inactive, and the timer
  that was referenced is cleared.

  When the cancelled recording was the only thing going on (\<open>sole_recording\<close>: started
  from rest, no stop requested), then moreover, whatever data events, timer events and
  calls of \<open>stopRecording\<close> and \<open>cancelRecording\<close> follow, for as long as no new
  recording is started: no blob is resolved, so no attachment is created; references,
  flag and counter stay as the cancel left them; no track is live, no recorder is
  active and no timer fires; and the chunk list holds at most one chunk, which a data
  event of the cancelled recorder has delivered. That one event is the last
  \<open>dataavailable\<close> scheduled by the recorder's \<open>stop()\<close>: it is delivered to the handler,
  which is still attached and appends the chunk to the fresh list when its size is
  positive; no other recorder delivers data, and after that event none does.
\<close>

theorem cancelRecording_spec:
  "chunksRef (cancelRecording w) = []
   \<and> mediaRecorderRef (cancelRecording w) = None
   \<and> streamRef (cancelRecording w) = None
   \<and> timerRef (cancelRecording w) = None
   \<and> isRecording (cancelRecording w) = False
   \<and> recordingDuration (cancelRecording w) = 0
   \<and> stopRecording (cancelRecording w) = (Some None, cancelRecording w)
   \<and> (\<forall>sid ts. streamRef w = Some sid \<and> streams w sid = Some ts \<longrightarrow>
         streams (cancelRecording w) sid = Some (map (\<lambda>t. Ended) ts))
   \<and> (\<forall>rid r. mediaRecorderRef w = Some rid \<and> recorders w rid = Some r \<longrightarrow>
         map_option rec_state (recorders (cancelRecording w) rid) = Some Inactive)
   \<and> (\<forall>tid. timerRef w = Some tid \<longrightarrow> tick tid (cancelRecording w) = None)
   \<and> (\<forall>rid sid tid es. sole_recording w rid sid tid \<longrightarrow>
         fst (after_events es (cancelRecording w)) = []
         \<and> mediaRecorderRef (snd (after_events es (cancelRecording w))) = None
         \<and> streamRef (snd (after_events es (cancelRecording w))) = None
         \<and> isRecording (snd (after_events es (cancelRecording w))) = False
         \<and> recordingDuration (snd (after_events es (cancelRecording w))) = 0
         \<and> stopRecording (snd (after_events es (cancelRecording w))) =
             (Some None, snd (after_events es (cancelRecording w)))
         \<and> (\<forall>s ts. streams (snd (after_events es (cancelRecording w))) s = Some ts \<longrightarrow>
               (\<forall>t \<in> set ts. t = Ended))
         \<and> (\<forall>i r. recorders (snd (after_events es (cancelRecording w))) i = Some r \<longrightarrow>
               rec_state r = Inactive)
         \<and> (\<forall>t. tick t (snd (after_events es (cancelRecording w))) = None)
         \<and> length (chunksRef (snd (after_events es (cancelRecording w)))) \<le> 1
         \<and> set (chunksRef (snd (after_events es (cancelRecording w)))) \<subseteq>
             {b. DataEvent rid b \<in> set es}
         \<and> (\<forall>other b. other \<noteq> rid \<longrightarrow> deliver_data other b (cancelRecording w) = None)
         \<and> (\<forall>b. \<exists>w'. deliver_data rid b (cancelRecording w) = Some (None, w') \<and>
               chunksRef w' = (if blob_size b > 0 then [b] else []) \<and>
               (\<forall>i b'. deliver_data i b' w' = None)))"
proof -
  have always: "chunksRef (cancelRecording w) = []" "mediaRecorderRef (cancelRecording w) = None"
    "streamRef (cancelRecording w) = None" "timerRef (cancelRecording w) = None"
    "isRecording (cancelRecording w) = False" "recordingDuration (cancelRecording w) = 0"
    by (rule cancelRecording_refs)+
  have stop: "stopRecording (cancelRecording w) = (Some None, cancelRecording w)"
    using always(2) by (rule stopRecording_no_recorder)
  have tracks: "\<forall>sid ts. streamRef w = Some sid \<and> streams w sid = Some ts \<longrightarrow>
         streams (cancelRecording w) sid = Some (map (\<lambda>t. Ended) ts)"
    by (simp add: cancelRecording_streams)
  have inactive: "\<forall>rid r. mediaRecorderRef w = Some rid \<and> recorders w rid = Some r \<longrightarrow>
         map_option rec_state (recorders (cancelRecording w) rid) = Some Inactive"
    using cancelRecording_recorder [of w] by blast
  have timer: "\<forall>tid. timerRef w = Some tid \<longrightarrow> tick tid (cancelRecording w) = None"
    by (simp add: cancelRecording_timer)
  have sole: "\<forall>rid sid tid es. sole_recording w rid sid tid \<longrightarrow>
         fst (after_events es (cancelRecording w)) = []
         \<and> mediaRecorderRef (snd (after_events es (cancelRecording w))) = None
         \<and> streamRef (snd (after_events es (cancelRecording w))) = None
         \<and> isRecording (snd (after_events es (cancelRecording w))) = False
         \<and> recordingDuration (snd (after_events es (cancelRecording w))) = 0
         \<and> stopRecording (snd (after_events es (cancelRecording w))) =
             (Some None, snd (after_events es (cancelRecording w)))
         \<and> (\<forall>s ts. streams (snd (after_events es (cancelRecording w))) s = Some ts \<longrightarrow>
               (\<forall>t \<in> set ts. t = Ended))
         \<and> (\<forall>i r. recorders (snd (after_events es (cancelRecording w))) i = Some r \<longrightarrow>
               rec_state r = Inactive)
         \<and> (\<forall>t. tick t (snd (after_events es (cancelRecording w))) = None)
         \<and> length (chunksRef (snd (after_events es (cancelRecording w)))) \<le> 1
         \<and> set (chunksRef (snd (after_events es (cancelRecording w)))) \<subseteq>
             {b. DataEvent rid b \<in> set es}
         \<and> (\<forall>other b. other \<noteq> rid \<longrightarrow> deliver_data other b (cancelRecording w) = None)
         \<and> (\<forall>b. \<exists>w'. deliver_data rid b (cancelRecording w) = Some (None, w') \<and>
               chunksRef w' = (if blob_size b > 0 then [b] else []) \<and>
               (\<forall>i b'. deliver_data i b' w' = None))"
  proof (intro allI impI)
    fix rid sid tid es
    assume sr: "sole_recording w rid sid tid"
    let ?wf = "snd (after_events es (cancelRecording w))"
    have c: "cancelled (cancelRecording w) rid" using sr by (rule sole_recording_cancelled)
    from cancelled_after_events [OF c, of es]
    have blobs: "fst (after_events es (cancelRecording w)) = []"
      and cf: "cancelled ?wf rid"
      and chunks: "set (chunksRef ?wf) \<subseteq> set (chunksRef (cancelRecording w)) \<union> {b. DataEvent rid b \<in> set es}"
      by simp_all
    from chunks have from_event: "set (chunksRef ?wf) \<subseteq> {b. DataEvent rid b \<in> set es}"
      by (simp add: always)
    from cf have refs: "mediaRecorderRef ?wf = None" "streamRef ?wf = None"
      "isRecording ?wf = False" "recordingDuration ?wf = 0" "length (chunksRef ?wf) \<le> 1"
      by (simp_all add: cancelled_def)
    from refs(1) have st: "stopRecording ?wf = (Some None, ?wf)" by (rule stopRecording_no_recorder)
    from cf have ended: "\<forall>s ts. streams ?wf s = Some ts \<longrightarrow> (\<forall>t \<in> set ts. t = Ended)"
      unfolding cancelled_def by blast
    from cf have inact: "\<forall>i r. recorders ?wf i = Some r \<longrightarrow> rec_state r = Inactive"
      unfolding cancelled_def by blast
    from cf have ticks: "\<forall>t. tick t ?wf = None"
      by (simp add: cancelled_def tick_def)
    have others: "\<forall>other b. other \<noteq> rid \<longrightarrow> deliver_data other b (cancelRecording w) = None"
      using sr by (simp add: deliver_data_other)
    have final: "\<forall>b. \<exists>w'. deliver_data rid b (cancelRecording w) = Some (None, w') \<and>
               chunksRef w' = (if blob_size b > 0 then [b] else []) \<and>
               (\<forall>i b'. deliver_data i b' w' = None)"
    proof
      fix b
      let ?w' = "(ondataavailable_handler b (cancelRecording w))
        \<lparr>recorders := (recorders (cancelRecording w))(rid \<mapsto>
          \<lparr>rec_state = Inactive, rec_stream = sid, ondataavailable = True, onstop = False,
           final_pending = False\<rparr>)\<rparr>"
      have d: "deliver_data rid b (cancelRecording w) = Some (None, ?w')"
        using sr by (rule deliver_data_final)
      have ch: "chunksRef ?w' = (if blob_size b > 0 then [b] else [])"
        by (simp add: ondataavailable_handler_def always)
      have q: "\<forall>i b'. deliver_data i b' ?w' = None"
        using after_final_quiet [OF sr d] by blast
      from d ch q
      show "\<exists>w'. deliver_data rid b (cancelRecording w) = Some (None, w') \<and>
               chunksRef w' = (if blob_size b > 0 then [b] else []) \<and>
               (\<forall>i b'. deliver_data i b' w' = None)"
        by blast
    qed
    from blobs refs st ended inact ticks from_event others final
    show "fst (after_events es (cancelRecording w)) = []
         \<and> mediaRecorderRef ?wf = None
         \<and> streamRef ?wf = None
         \<and> isRecording ?wf = False
         \<and> recordingDuration ?wf = 0
         \<and> stopRecording ?wf = (Some None, ?wf)
         \<and> (\<forall>s ts. streams ?wf s = Some ts \<longrightarrow> (\<forall>t \<in> set ts. t = Ended))
         \<and> (\<forall>i r. recorders ?wf i = Some r \<longrightarrow> rec_state r = Inactive)
         \<and> (\<forall>t. tick t ?wf = None)
         \<and> length (chunksRef ?wf) \<le> 1
         \<and> set (chunksRef ?wf) \<subseteq> {b. DataEvent rid b \<in> set es}
         \<and> (\<forall>other b. other \<noteq> rid \<longrightarrow> deliver_data other b (cancelRecording w) = None)
         \<and> (\<forall>b. \<exists>w'. deliver_data rid b (cancelRecording w) = Some (None, w') \<and>
               chunksRef w' = (if blob_size b > 0 then [b] else []) \<and>
               (\<forall>i b'. deliver_data i b' w' = None))"
      by (intro conjI)
  qed
  from always stop tracks inactive timer sole show ?thesis by (intro conjI)
qed


text \<open>
  A recording is started at rest, its first chunk arrives, and it is cancelled; then
  the timer would fire, the last data event arrives, \<open>stopRecording\<close> is called and
  the recorder is offered another chunk.
\<close>

lemma idle_at_rest: "at_rest idle_world"
  by (simp add: at_rest_def idle_world_def)

lemma recording_world_sole_recording: "sole_recording recording_world 0 0 1"
proof -
  have "sole_recording (startRecording (Resolved [Live]) True 0 0 1 idle_world) 0 0 1"
    using idle_at_rest by (rule startRecording_sole_recording)
  then show ?thesis
    by (simp add: recording_world_def ondataavailable_handler_def sole_recording_def)
qed

lemma recording_world_fields:
  "chunksRef recording_world = [first_chunk]"
  "streamRef recording_world = Some 0"
  "streams recording_world 0 = Some [Live]"
  "mediaRecorderRef recording_world = Some 0"
  "timerRef recording_world = Some 1"
  "recorders recording_world 0 =
     Some \<lparr>rec_state = Recording, rec_stream = 0, ondataavailable = True, onstop = False,
           final_pending = False\<rparr>"
  by (simp_all add: recording_world_def ondataavailable_handler_def first_chunk_def
      startRecording_def Let_def idle_world_def)

theorem cancelRecording_spec_witness:
  "sole_recording recording_world 0 0 1
   \<and> chunksRef recording_world = [first_chunk]
   \<and> chunksRef (cancelRecording recording_world) = []
   \<and> streamRef recording_world = Some 0
   \<and> streams recording_world 0 = Some [Live]
   \<and> streams (cancelRecording recording_world) 0 = Some [Ended]
   \<and> mediaRecorderRef recording_world = Some 0
   \<and> map_option rec_state (recorders (cancelRecording recording_world) 0) = Some Inactive
   \<and> timerRef recording_world = Some 1
   \<and> tick 1 (cancelRecording recording_world) = None
   \<and> stopRecording (cancelRecording recording_world) = (Some None, cancelRecording recording_world)
   \<and> fst (after_events [TickEvent 1, DataEvent 0 late_chunk, StopCall, DataEvent 0 first_chunk]
            (cancelRecording recording_world)) = []
   \<and> length (chunksRef (snd (after_events
        [TickEvent 1, DataEvent 0 late_chunk, StopCall, DataEvent 0 first_chunk]
        (cancelRecording recording_world)))) \<le> 1
   \<and> deliver_data 3 late_chunk (cancelRecording recording_world) = None"
proof -
  note spec = cancelRecording_spec [of recording_world]
  note sr = recording_world_sole_recording
  note f = recording_world_fields
  let ?es = "[TickEvent 1, DataEvent 0 late_chunk, StopCall, DataEvent 0 first_chunk]"
  from spec have a: "chunksRef (cancelRecording recording_world) = []"
    by (elim conjE) assumption
  from spec have b: "stopRecording (cancelRecording recording_world) = (Some None, cancelRecording recording_world)"
    by (elim conjE) assumption
  from spec have tr: "\<forall>sid ts. streamRef recording_world = Some sid \<and> streams recording_world sid = Some ts \<longrightarrow>
         streams (cancelRecording recording_world) sid = Some (map (\<lambda>t. Ended) ts)"
    by (elim conjE) assumption
  from spec have re: "\<forall>rid r. mediaRecorderRef recording_world = Some rid \<and> recorders recording_world rid = Some r \<longrightarrow>
         map_option rec_state (recorders (cancelRecording recording_world) rid) = Some Inactive"
    by (elim conjE) assumption
  from spec have ti: "\<forall>tid. timerRef recording_world = Some tid \<longrightarrow> tick tid (cancelRecording recording_world) = None"
    by (elim conjE) assumption
  from tr [rule_format, of 0 "[Live]"] f(2,3)
  have c: "streams (cancelRecording recording_world) 0 = Some [Ended]" by simp
  from re [rule_format, OF conjI, OF f(4) f(6)]
  have d: "map_option rec_state (recorders (cancelRecording recording_world) 0) = Some Inactive" .
  from ti [rule_format, OF f(5)]
  have e: "tick 1 (cancelRecording recording_world) = None" .
  from spec have so: "\<forall>rid sid tid es. sole_recording recording_world rid sid tid \<longrightarrow>
         fst (after_events es (cancelRecording recording_world)) = []
         \<and> mediaRecorderRef (snd (after_events es (cancelRecording recording_world))) = None
         \<and> streamRef (snd (after_events es (cancelRecording recording_world))) = None
         \<and> isRecording (snd (after_events es (cancelRecording recording_world))) = False
         \<and> recordingDuration (snd (after_events es (cancelRecording recording_world))) = 0
         \<and> stopRecording (snd (after_events es (cancelRecording recording_world))) =
             (Some None, snd (after_events es (cancelRecording recording_world)))
         \<and> (\<forall>s ts. streams (snd (after_events es (cancelRecording recording_world))) s = Some ts \<longrightarrow>
               (\<forall>t \<in> set ts. t = Ended))
         \<and> (\<forall>i r. recorders (snd (after_events es (cancelRecording recording_world))) i = Some r \<longrightarrow>
               rec_state r = Inactive)
         \<and> (\<forall>t. tick t (snd (after_events es (cancelRecording recording_world))) = None)
         \<and> length (chunksRef (snd (after_events es (cancelRecording recording_world)))) \<le> 1
         \<and> set (chunksRef (snd (after_events es (cancelRecording recording_world)))) \<subseteq>
             {b. DataEvent rid b \<in> set es}
         \<and> (\<forall>other b. other \<noteq> rid \<longrightarrow> deliver_data other b (cancelRecording recording_world) = None)
         \<and> (\<forall>b. \<exists>w'. deliver_data rid b (cancelRecording recording_world) = Some (None, w') \<and>
               chunksRef w' = (if blob_size b > 0 then [b] else []) \<and>
               (\<forall>i b'. deliver_data i b' w' = None))"
    by (elim conjE) assumption
  note after = so [rule_format, OF sr, of ?es]
  from after have g: "fst (after_events ?es (cancelRecording recording_world)) = []"
    by (elim conjE) assumption
  from after have h: "length (chunksRef (snd (after_events ?es (cancelRecording recording_world)))) \<le> 1"
    by (elim conjE) assumption
  from after have "\<forall>other b. other \<noteq> 0 \<longrightarrow> deliver_data other b (cancelRecording recording_world) = None"
    by (elim conjE) assumption
  then have i: "deliver_data 3 late_chunk (cancelRecording recording_world) = None"
    by simp
  from sr f(1-5) a b c d e g h i show ?thesis by (intro conjI)
qed

text \<open>
  Claim C8 as it was stated has no chunk appended after the cancel. In the recording
  above, the data event scheduled by the recorder's \<open>stop()\<close> arrives after
  \<open>cancelRecording\<close> has returned, with a chunk of 7 bytes, and the chunk list, empty
  after the cancel, then holds that chunk.
\<close>

theorem cancelRecording_late_chunk_counterexample:
  "sole_recording recording_world 0 0 1
   \<and> chunksRef (cancelRecording recording_world) = []
   \<and> map_option (\<lambda>res. chunksRef (snd res))
        (deliver_data 0 late_chunk (cancelRecording recording_world)) = Some [late_chunk]"
proof -
  note c = cancelRecording_sole_recording [OF recording_world_sole_recording]
  have e: "chunksRef (cancelRecording recording_world) = []"
    by (simp add: c)
  have d: "map_option (\<lambda>res. chunksRef (snd res))
        (deliver_data 0 late_chunk (cancelRecording recording_world)) = Some [late_chunk]"
    by (simp add: c deliver_data_def Let_def ondataavailable_handler_def late_chunk_def)
  from recording_world_sole_recording e d show ?thesis by blast
qed

text \<open>
  The two kinds of state with the recording flag set that \<open>sole_recording\<close> leaves out.
  When \<open>stopRecording\<close> has been called and the \<open>stop\<close> event is still to come, a cancel
  leaves the \<open>onstop\<close> handler attached, and the event then resolves a blob made of
  the last chunk. When \<open>startRecording\<close> has run twice, a cancel releases the second
  stream, recorder and timer only: the first stream stays live, the first recorder
  keeps recording and the first timer keeps counting.
\<close>

lemma cancel_after_stop_call:
  "isRecording stopping_world
   \<and> chunksRef (cancelRecording stopping_world) = []
   \<and> map_option fst (deliver_data 0 late_chunk (cancelRecording stopping_world)) =
       Some (Some \<lparr>blob_size = 7, blob_type = ''audio/webm''\<rparr>)"
  by (simp add: stopping_world_def stopRecording_def recording_world_fields Let_def
      clearInterval_def MediaRecorder_stop_def cancelRecording_def stop_tracks_def
      deliver_data_def ondataavailable_handler_def onstop_handler_def late_chunk_def
      recording_world_def startRecording_def idle_world_def first_chunk_def)

lemma cancel_after_second_start:
  "isRecording twice_started_world
   \<and> streams (cancelRecording twice_started_world) 0 = Some [Live]
   \<and> streams (cancelRecording twice_started_world) 1 = Some [Ended]
   \<and> map_option rec_state (recorders (cancelRecording twice_started_world) 0) = Some Recording
   \<and> map_option recordingDuration (tick 1 (cancelRecording twice_started_world)) = Some 1"
  by (simp add: twice_started_world_def startRecording_def idle_world_def Let_def
      clearInterval_def MediaRecorder_stop_def cancelRecording_def stop_tracks_def
      tick_def timer_callback_def)

end
